theory Spec2Isabelle
  imports Complex_Main
begin

section \<open>Data model of \<open>src/app.py\<close>\<close>

text \<open>
  A Python float is modelled by the real number it holds, a finite IEEE binary64
  value; infinities and NaN are no values of the model, and where an operation would
  produce one the model says so (\<open>expected_side\<close>). \<open>fl\<close> rounds a real to the nearest
  double, ties to the even mantissa. In \<open>_compute_expected\<close> and in
  \<open>_classify_digit_1_7\<close> every float operation and every float literal is rounded
  by \<open>fl\<close>, and so is the literal \<open>1e-9\<close> of \<open>has_ratio\<close>. In \<open>key\<close>, in
  \<open>_score_ratio\<close> and in the text parser the decimal values are taken as they are
  written (\<open>1e-6\<close> is \<open>1 / 10 ^ 6\<close>). Python ints are \<open>int\<close>.
\<close>

text \<open>Python's \<open>round(x)\<close> on a float: nearest integer, ties to the even one.\<close>

definition py_round :: "real \<Rightarrow> int" where
  "py_round x =
     (let f = \<lfloor>x\<rfloor>; d = x - of_int f
      in if d < 1 / 2 then f
         else if 1 / 2 < d then f + 1
         else if even f then f else f + 1)"

text \<open>\<open>round(x, 2)\<close>: the value rounded to two decimals, ties to even.\<close>

definition py_round2 :: "real \<Rightarrow> real" where
  "py_round2 x = of_int (py_round (x * 100)) / 100"

text \<open>The number of binary digits of a positive integer; 0 otherwise.\<close>

function bit_length :: "int \<Rightarrow> int" where
  "bit_length n = (if n \<le> 0 then 0 else 1 + bit_length (n div 2))"
  by pat_completeness auto
termination
  by (relation "measure nat") auto

declare bit_length.simps [simp del]

text \<open>The binary exponent of a positive real: the \<open>e\<close> with \<open>2^e \<le> x < 2^(e+1)\<close>.\<close>

definition float_exponent :: "real \<Rightarrow> int" where
  "float_exponent x =
     (if 1 \<le> x then bit_length \<lfloor>x\<rfloor> - 1
      else - bit_length (\<lceil>1 / x\<rceil> - 1))"

text \<open>
  Rounding to binary64: 53 significant bits, the exponent not below \<open>-1022\<close> (below it
  the spacing stays \<open>2^-1074\<close>), the nearest value, ties to the even mantissa.
\<close>

definition fl :: "real \<Rightarrow> real" where
  "fl x =
     (if x = 0 then 0
      else
        (let e = max (float_exponent \<bar>x\<bar>) (- 1022);
             u = 2 powi (e - 52)
         in of_int (py_round (x / u)) * u))"

text \<open>A rounded result of magnitude \<open>2^1024\<close> or more, that is of exponent 1024 or
  more, is beyond the doubles: the float operation gives an infinity.\<close>

definition float_overflow :: "real \<Rightarrow> bool" where
  "float_overflow x = (x \<noteq> 0 \<and> 1024 \<le> float_exponent \<bar>x\<bar>)"

datatype py_error = OverflowError | ValueError

record Region =
  region_left :: int
  region_top :: int
  region_width :: int
  region_height :: int

record ParseResult =
  items :: "int option"
  listing_price :: "int option"
  ratio_num :: "real option"
  ratio_den :: "real option"
  raw_text :: string
  left_value :: "int option"
  right_value :: "int option"

type_synonym result_key = "real option \<times> real option \<times> int option \<times> int option"

text \<open>\<open>ParseResult.key\<close>\<close>

definition key :: "ParseResult \<Rightarrow> result_key" where
  "key r = (map_option py_round2 (ratio_num r), map_option py_round2 (ratio_den r),
            left_value r, right_value r)"

text \<open>\<open>ParseResult.has_ratio\<close>\<close>

definition has_ratio :: "ParseResult \<Rightarrow> bool" where
  "has_ratio r =
     (case ratio_num r of None \<Rightarrow> False
      | Some n \<Rightarrow> (case ratio_den r of None \<Rightarrow> False
                   | Some d \<Rightarrow> fl (1 / 10 ^ 9) < \<bar>d\<bar>))"

text \<open>
  The fields of \<open>MainWindow\<close> that the handlers below read or write. Widgets, timers
  and the configuration file are not modelled; the status line is kept as a field.
\<close>

record MainWindow =
  ratio_region :: "Region option"
  left_region :: "Region option"
  right_region :: "Region option"
  busy :: bool
  locked :: bool
  selector_open :: bool
  select_target :: "string option"
  last_good :: "ParseResult option"
  bad_streak :: int
  pending_key :: "result_key option"
  pending_count :: int
  swap_sides :: bool
  calc_mode :: string
  auto_direction :: string
  last_inputs :: "(int \<times> int) option"
  status :: string

text \<open>The state that \<open>MainWindow.__init__\<close> sets up, before the configuration is loaded.\<close>

definition init_window :: MainWindow where
  "init_window =
     \<lparr>ratio_region = None, left_region = None, right_region = None,
      busy = False, locked = False, selector_open = False, select_target = None,
      last_good = None, bad_streak = 0, pending_key = None, pending_count = 0,
      swap_sides = False, calc_mode = ''auto'', auto_direction = ''from_right'',
      last_inputs = None, status = ''''\<rparr>"

section \<open>Stability machine and resolver\<close>

text \<open>\<open>MainWindow._is_valid_result\<close>\<close>

definition is_valid_result :: "ParseResult \<Rightarrow> bool" where
  "is_valid_result r =
     (if \<not> has_ratio r then False
      else if left_value r = None \<and> right_value r = None then False
      else if (case left_value r of None \<Rightarrow> False | Some l \<Rightarrow> l \<le> 0) then False
      else if (case right_value r of None \<Rightarrow> False | Some v \<Rightarrow> v \<le> 0) then False
      else True)"

text \<open>The first block of \<open>MainWindow._handle_result\<close>: the debounce update.\<close>

definition stability_step :: "MainWindow \<Rightarrow> ParseResult \<Rightarrow> MainWindow" where
  "stability_step s r =
     (if is_valid_result r then
        (let s1 = (if Some (key r) = pending_key s
                   then s\<lparr>pending_count := pending_count s + 1\<rparr>
                   else s\<lparr>pending_key := Some (key r), pending_count := 1\<rparr>)
         in if 2 \<le> pending_count s1
            then s1\<lparr>last_good := Some r, bad_streak := 0\<rparr>
            else s1)
      else s\<lparr>pending_key := None, pending_count := 0, bad_streak := bad_streak s + 1\<rparr>)"

text \<open>
  \<open>round(v * (a / b))\<close> for an int \<open>v\<close> and floats \<open>a\<close>, \<open>b\<close> with \<open>b\<close> not 0: the
  quotient is rounded (an overflow gives infinity), \<open>v\<close> is converted to a float
  (\<open>OverflowError\<close> if it is too large), the product is rounded, and \<open>round\<close> raises
  \<open>OverflowError\<close> on an infinity and \<open>ValueError\<close> on the NaN that \<open>0 * inf\<close> is.
\<close>

definition expected_side :: "int \<Rightarrow> real \<Rightarrow> real \<Rightarrow> py_error + int" where
  "expected_side v a b =
     (let q = fl (a / b);
          vf = fl (of_int v)
      in if float_overflow vf then Inl OverflowError
         else if float_overflow q then (if vf = 0 then Inl ValueError else Inl OverflowError)
         else
           (let p = fl (vf * q)
            in if float_overflow p then Inl OverflowError else Inr (py_round p)))"

text \<open>\<open>MainWindow._compute_expected\<close>; an exception of the first \<open>round\<close> leaves the
  function before the second one is tried.\<close>

definition compute_expected ::
  "int option \<Rightarrow> int option \<Rightarrow> ParseResult \<Rightarrow> py_error + (int option \<times> int option)" where
  "compute_expected left_input right_input r =
     (if \<not> has_ratio r \<or> ratio_num r = None \<or> \<bar>the (ratio_num r)\<bar> < fl (1 / 10 ^ 9)
      then Inr (None, None)
      else
        (let n = the (ratio_num r); d = the (ratio_den r) in
         case (case right_input of None \<Rightarrow> Inr None
               | Some v \<Rightarrow> map_sum id Some (expected_side v n d)) of
           Inl e \<Rightarrow> Inl e
         | Inr expected_left \<Rightarrow>
             (case (case left_input of None \<Rightarrow> Inr None
                    | Some v \<Rightarrow> map_sum id Some (expected_side v d n)) of
                Inl e \<Rightarrow> Inl e
              | Inr expected_right \<Rightarrow> Inr (expected_left, expected_right))))"

text \<open>\<open>MainWindow._resolve_mode\<close>: returns the mode and the window with
  \<open>_auto_direction\<close> updated.\<close>

definition resolve_mode ::
  "MainWindow \<Rightarrow> int option \<Rightarrow> int option \<Rightarrow> real option \<Rightarrow> real option
     \<Rightarrow> string \<times> MainWindow" where
  "resolve_mode s left_input right_input rnum rden =
     (if calc_mode s \<noteq> ''auto'' then (calc_mode s, s)
      else if left_input = None \<and> right_input \<noteq> None then (''from_right'', s)
      else if right_input = None \<and> left_input \<noteq> None then (''from_left'', s)
      else if left_input = None \<or> right_input = None then (auto_direction s, s)
      else
        (let s1 =
           (case (rnum, rden) of
              (Some n, Some d) \<Rightarrow>
                if d \<noteq> 0 then
                  (if n < d then s\<lparr>auto_direction := ''from_left''\<rparr>
                   else if d < n then s\<lparr>auto_direction := ''from_right''\<rparr>
                   else s)
                else s
            | _ \<Rightarrow> s)
         in case last_inputs s1 of
              None \<Rightarrow> (auto_direction s1, s1)
            | Some (last_left, last_right) \<Rightarrow>
                (let left_delta = \<bar>the left_input - last_left\<bar>;
                     right_delta = \<bar>the right_input - last_right\<bar>
                 in if left_delta = 0 \<and> right_delta = 0 then (auto_direction s1, s1)
                    else if right_delta \<le> left_delta
                    then (''from_left'', s1\<lparr>auto_direction := ''from_left''\<rparr>)
                    else (''from_right'', s1\<lparr>auto_direction := ''from_right''\<rparr>))))"

text \<open>\<open>MainWindow._compute_confidence\<close> and \<open>MainWindow._build_status\<close>\<close>

definition compute_confidence :: "ParseResult \<Rightarrow> int" where
  "compute_confidence r =
     (if has_ratio r then 50 else 0) + (if left_value r \<noteq> None then 25 else 0)
       + (if right_value r \<noteq> None then 25 else 0)"

definition build_status :: "ParseResult \<Rightarrow> string" where
  "build_status r =
     (if \<not> has_ratio r then ''Looking for market ratio...''
      else if left_value r = None then ''Looking for I want...''
      else if right_value r = None then ''Looking for I have...''
      else ''OCR updated.'')"

text \<open>What one call of \<open>_handle_result\<close> shows.\<close>

record Shown =
  shown_result :: ParseResult
  expected_left :: "int option"
  expected_right :: "int option"
  shown_mode :: string
  recommended :: "int option"
  confidence :: int

text \<open>\<open>MainWindow._handle_result\<close>. Where \<open>_compute_expected\<close> raises (a float
  overflow, which takes a ratio side or a box value far beyond any that the recognizer
  reads) the program leaves the handler at that line; that case is outside this
  model of the handler, which then goes on without expected values.\<close>

definition handle_result :: "MainWindow \<Rightarrow> ParseResult \<Rightarrow> Shown \<times> MainWindow" where
  "handle_result s r =
     (let is_valid = is_valid_result r;
          s1 = stability_step s r;
          display = (if is_valid then r
                     else (case last_good s1 of Some g \<Rightarrow> g | None \<Rightarrow> r));
          left_input = left_value display;
          right_input = right_value display;
          (el, er) = (case compute_expected left_input right_input display of
                        Inr expected \<Rightarrow> expected
                      | Inl e \<Rightarrow> (None, None));
          (mode, s2) = resolve_mode s1 left_input right_input
                         (ratio_num display) (ratio_den display);
          s3 = (if is_valid \<and> left_input \<noteq> None \<and> right_input \<noteq> None
                then s2\<lparr>last_inputs := Some (the left_input, the right_input)\<rparr>
                else s2);
          s4 = (if \<not> is_valid \<and> last_good s3 \<noteq> None \<and> bad_streak s3 \<le> 3
                then s3\<lparr>status := ''OCR unstable; holding last good values.''\<rparr>
                else s3\<lparr>status := build_status display\<rparr>)
      in (\<lparr>shown_result = display, expected_left = el, expected_right = er,
           shown_mode = mode,
           recommended = (if mode = ''from_right'' then el else er),
           confidence = compute_confidence display\<rparr>,
          s4\<lparr>busy := False\<rparr>))"

text \<open>\<open>MainWindow._handle_error\<close>\<close>

definition handle_error :: "MainWindow \<Rightarrow> string \<Rightarrow> MainWindow" where
  "handle_error s message = s\<lparr>status := message, busy := False\<rparr>"

text \<open>\<open>MainWindow._regions_ready\<close>\<close>

definition regions_ready :: "MainWindow \<Rightarrow> bool" where
  "regions_ready s =
     (ratio_region s \<noteq> None \<and> left_region s \<noteq> None \<and> right_region s \<noteq> None)"

text \<open>\<open>MainWindow._set_region\<close>\<close>

definition set_region :: "MainWindow \<Rightarrow> Region \<Rightarrow> MainWindow" where
  "set_region s region =
     (let s1 = (if select_target s = Some ''ratio''
                then s\<lparr>ratio_region := Some region, status := ''Ratio region set.''\<rparr>
                else if select_target s = Some ''left''
                then s\<lparr>left_region := Some region, status := ''Left box region set.''\<rparr>
                else if select_target s = Some ''right''
                then s\<lparr>right_region := Some region, status := ''Right box region set.''\<rparr>
                else s\<lparr>status := ''Region set.''\<rparr>);
          s2 = s1\<lparr>selector_open := False, select_target := None, last_good := None,
                   pending_key := None, pending_count := 0\<rparr>
      in if regions_ready s2
         then s2\<lparr>status := ''Regions selected. Running OCR...''\<rparr>
         else s2)"

text \<open>\<open>MainWindow._toggle_swap\<close>; \<open>checked\<close> is \<open>state == Qt.CheckState.Checked\<close>.\<close>

definition toggle_swap :: "MainWindow \<Rightarrow> bool \<Rightarrow> MainWindow" where
  "toggle_swap s checked =
     s\<lparr>swap_sides := checked, last_good := None, pending_key := None,
       pending_count := 0, last_inputs := None,
       status := (if checked then ''Swapped left/right inputs.''
                  else ''Using left/right inputs.'')\<rparr>"

text \<open>\<open>MainWindow._change_mode\<close>; \<open>combo_text\<close> is the combo box's current text.\<close>

definition change_mode :: "MainWindow \<Rightarrow> int \<Rightarrow> string \<Rightarrow> MainWindow" where
  "change_mode s index combo_text =
     s\<lparr>calc_mode := (if index = 1 then ''from_right''
                     else if index = 2 then ''from_left'' else ''auto''),
       last_inputs := None,
       status := ''Mode set to '' @ combo_text @ ''.''\<rparr>"

text \<open>\<open>MainWindow._pick_region\<close>, \<open>_handle_selection_canceled\<close> and \<open>_toggle_lock\<close>\<close>

definition pick_region :: "MainWindow \<Rightarrow> string \<Rightarrow> MainWindow" where
  "pick_region s target =
     (if locked s then s\<lparr>status := ''Regions are locked. Unlock to reselect.''\<rparr>
      else s\<lparr>select_target := Some target, selector_open := True\<rparr>)"

definition handle_selection_canceled :: "MainWindow \<Rightarrow> MainWindow" where
  "handle_selection_canceled s =
     s\<lparr>selector_open := False, select_target := None,
       status := ''Region selection canceled.''\<rparr>"

definition toggle_lock :: "MainWindow \<Rightarrow> MainWindow" where
  "toggle_lock s =
     s\<lparr>locked := \<not> locked s,
       status := (if \<not> locked s then ''Regions locked.'' else ''Regions unlocked.'')\<rparr>"

text \<open>
  What \<open>_load_regions\<close> may have written into the fresh window at start-up: the three
  regions, the swap flag and the mode string of the configuration file.
\<close>

definition loaded_window ::
  "Region option \<Rightarrow> Region option \<Rightarrow> Region option \<Rightarrow> bool \<Rightarrow> string \<Rightarrow> MainWindow" where
  "loaded_window a b c sw m =
     init_window\<lparr>ratio_region := a, left_region := b, right_region := c,
       swap_sides := sw, calc_mode := m\<rparr>"

text \<open>The calls that reach the window after start-up, one constructor per slot.\<close>

datatype event =
    Reading ParseResult
  | Failure string
  | PickRegion string
  | SelectionCanceled
  | SetRegion Region
  | ToggleLock
  | ToggleSwap bool
  | ChangeMode int string

fun apply_event :: "MainWindow \<Rightarrow> event \<Rightarrow> MainWindow" where
  "apply_event s (Reading r) = snd (handle_result s r)"
| "apply_event s (Failure m) = handle_error s m"
| "apply_event s (PickRegion t) = pick_region s t"
| "apply_event s SelectionCanceled = handle_selection_canceled s"
| "apply_event s (SetRegion g) = set_region s g"
| "apply_event s ToggleLock = toggle_lock s"
| "apply_event s (ToggleSwap c) = toggle_swap s c"
| "apply_event s (ChangeMode i t) = change_mode s i t"

definition run :: "MainWindow \<Rightarrow> event list \<Rightarrow> MainWindow" where
  "run s es = foldl apply_event s es"

text \<open>Sample readings used in the concrete checks below.\<close>

definition reading_a :: ParseResult where
  "reading_a =
     \<lparr>items = Some 80, listing_price = Some 50, ratio_num = Some 3, ratio_den = Some 7,
      raw_text = ''RATIO: 3:7'', left_value = Some 50, right_value = Some 80\<rparr>"

definition reading_a2 :: ParseResult where
  "reading_a2 = reading_a\<lparr>raw_text := ''RATIO: 3 : 7''\<rparr>"

definition reading_b :: ParseResult where
  "reading_b =
     \<lparr>items = Some 80, listing_price = Some 52, ratio_num = Some 3, ratio_den = Some 7,
      raw_text = ''RATIO: 3:7'', left_value = Some 52, right_value = Some 80\<rparr>"

definition reading_bad :: ParseResult where
  "reading_bad =
     \<lparr>items = None, listing_price = None, ratio_num = None, ratio_den = None,
      raw_text = [], left_value = None, right_value = None\<rparr>"

text \<open>The relation between \<open>_pending_key\<close> and \<open>_pending_count\<close> that every handler keeps.\<close>

definition pending_inv :: "MainWindow \<Rightarrow> bool" where
  "pending_inv s \<longleftrightarrow> 0 \<le> pending_count s \<and> (pending_key s = None \<longleftrightarrow> pending_count s = 0)"

section \<open>Ratio scoring\<close>


text \<open>Readings with the ratios 15 : 22 and 6 : 25, and one with numerator 0, as the
  raw-text fallback of \<open>_ocr_ratio\<close> can return it.\<close>

definition reading_15_22 :: ParseResult where
  "reading_15_22 =
     \<lparr>items = Some 11, listing_price = Some 15, ratio_num = Some 15, ratio_den = Some 22,
      raw_text = ''RATIO: 15:22'', left_value = Some 15, right_value = Some 11\<rparr>"

definition reading_6_25 :: ParseResult where
  "reading_6_25 =
     \<lparr>items = Some 11, listing_price = Some 15, ratio_num = Some 6, ratio_den = Some 25,
      raw_text = ''RATIO: 6:25'', left_value = Some 15, right_value = Some 11\<rparr>"

definition reading_zero :: ParseResult where
  "reading_zero =
     \<lparr>items = Some 100, listing_price = None, ratio_num = Some 0, ratio_den = Some 7,
      raw_text = ''RATIO: 0:7'', left_value = None, right_value = Some 100\<rparr>"

section \<open>Images\<close>

text \<open>
  A single-channel (mode \<open>L\<close>) PIL image: its size and its pixels in the row-major
  order of \<open>getdata()\<close>, each between 0 and 255. \<open>pixel img x y\<close> is \<open>pixels[x, y]\<close>.
  On such images \<open>convert("L")\<close> is the identity.
\<close>

record image =
  img_width :: nat
  img_height :: nat
  img_data :: "nat list"

definition pixel :: "image \<Rightarrow> nat \<Rightarrow> nat \<Rightarrow> nat" where
  "pixel img x y = img_data img ! (y * img_width img + x)"

definition wf_image :: "image \<Rightarrow> bool" where
  "wf_image img \<longleftrightarrow>
     length (img_data img) = img_width img * img_height img \<and> list_all (\<lambda>p. p \<le> 255) (img_data img)"

text \<open>\<open>image.crop((x0, 0, x1, height))\<close> for \<open>x0 \<le> x1 \<le> width\<close>: the columns from \<open>x0\<close>
  up to \<open>x1\<close>, all rows.\<close>

definition crop_columns :: "image \<Rightarrow> nat \<Rightarrow> nat \<Rightarrow> image" where
  "crop_columns img x0 x1 =
     \<lparr>img_width = x1 - x0, img_height = img_height img,
      img_data = concat (map (\<lambda>y. map (\<lambda>x. pixel img x y) [x0..<x1]) [0..<img_height img])\<rparr>"

text \<open>\<open>MainWindow._binarize_for_ratio\<close>. The test \<open>mean > 127\<close> on \<open>sum / len\<close> is
  written without the division.\<close>

definition binarize_for_ratio :: "image \<Rightarrow> image" where
  "binarize_for_ratio img =
     (let pixels = img_data img in
      if pixels = [] then img
      else
        (let gray = (if 127 * length pixels < sum_list pixels
                     then map (\<lambda>p. 255 - p) pixels else pixels)
         in img\<lparr>img_data := map (\<lambda>p. if 128 < p then 255 else 0) gray\<rparr>))"

text \<open>The counting loops: \<open>for y in ys: for x in xs: if pixels[x, y] > 0: count += 1\<close>.
  A loop with the two \<open>for\<close> exchanged counts the same pixels.\<close>

definition count_row :: "image \<Rightarrow> nat list \<Rightarrow> nat \<Rightarrow> nat \<Rightarrow> nat" where
  "count_row b xs count y = foldl (\<lambda>c x. if 0 < pixel b x y then c + 1 else c) count xs"

definition count_loop :: "image \<Rightarrow> nat list \<Rightarrow> nat list \<Rightarrow> nat" where
  "count_loop b ys xs = foldl (count_row b xs) 0 ys"

text \<open>The share of foreground pixels in a block of columns and rows, as a set
  cardinality: what the loops are meant to compute.\<close>

definition fg_density :: "image \<Rightarrow> nat set \<Rightarrow> nat set \<Rightarrow> real" where
  "fg_density b X Y =
     real (card {(x, y). x \<in> X \<and> y \<in> Y \<and> 0 < pixel b x y}) / real (card (X \<times> Y))"

section \<open>Gap split\<close>

text \<open>The scan for the emptiest column in \<open>_split_ratio_by_gap\<close>: the loop over
  \<open>range(start, end)\<close> with its running \<open>(min_count, min_idx)\<close>.\<close>

fun gap_scan :: "nat list \<Rightarrow> nat list \<Rightarrow> (nat \<times> nat) option \<Rightarrow> (nat \<times> nat) option" where
  "gap_scan counts [] best = best"
| "gap_scan counts (x # xs) best =
     (let count = counts ! x in
      case best of
        None \<Rightarrow> gap_scan counts xs (Some (count, x))
      | Some (min_count, min_idx) \<Rightarrow>
          if count < min_count then gap_scan counts xs (Some (count, x))
          else gap_scan counts xs best)"

text \<open>\<open>MainWindow._split_ratio_by_gap\<close>. \<open>int(width * 0.25)\<close> is \<open>width div 4\<close>,
  \<open>int(width * 0.75)\<close> is \<open>3 * width div 4\<close> and \<open>int(height * 0.15)\<close> is
  \<open>3 * height div 20\<close>.\<close>

definition split_ratio_by_gap :: "image \<Rightarrow> (image \<times> image) option" where
  "split_ratio_by_gap img =
     (let binary = binarize_for_ratio img;
          width = img_width binary; height = img_height binary in
      if width < 6 \<or> height < 4 then None
      else
        (let counts = map (\<lambda>x. count_loop binary [0..<height] [x]) [0..<width];
             start = width div 4;
             end = 3 * width div 4
         in case gap_scan counts [start..<end] None of
              None \<Rightarrow> None
            | Some (min_count, min_idx) \<Rightarrow>
                if max 2 (3 * height div 20) < min_count then None
                else
                  (let left_img = crop_columns img 0 min_idx;
                       right_img = crop_columns img (min_idx + 1) width
                   in if img_width left_img < 2 \<or> img_width right_img < 2 then None
                      else Some (left_img, right_img))))"

section \<open>The 1-versus-7 classifier\<close>

text \<open>\<open>MainWindow._classify_digit_1_7\<close>. \<open>int(height * 0.25)\<close> is \<open>height div 4\<close>;
  \<open>max(0, width // 2 - 1)\<close> is the truncated subtraction on \<open>nat\<close>. The three
  ratios are float quotients of ints, the thresholds float literals, and
  \<open>upper_right_ratio + 0.2\<close> a float sum.\<close>

definition classify_digit_1_7 :: "image \<Rightarrow> string option" where
  "classify_digit_1_7 img =
     (let binary = binarize_for_ratio img;
          width = img_width binary; height = img_height binary in
      if width < 2 \<or> height < 2 then None
      else
        (let top_rows = max 1 (height div 4);
             top_count = count_loop binary [0..<top_rows] [0..<width];
             top_ratio = fl (real top_count / real (top_rows * width));
             col_start = width div 2 - 1;
             col_end = min width (col_start + 3);
             vert_count = count_loop binary [0..<height] [col_start..<col_end];
             vert_ratio = fl (real vert_count / real (height * max 1 (col_end - col_start)));
             upper_right_area = max 1 ((width - width div 2) * (height div 2));
             upper_right_count = count_loop binary [0..<height div 2] [width div 2..<width];
             upper_right_ratio = fl (real upper_right_count / real upper_right_area)
         in if fl (5 / 10) \<le> top_ratio \<and> vert_ratio < fl (7 / 10) then Some ''7''
            else if top_ratio \<le> fl (35 / 100) \<and> fl (65 / 100) \<le> vert_ratio then Some ''1''
            else if fl (35 / 100) < upper_right_ratio \<and> fl (4 / 10) < top_ratio then Some ''7''
            else if fl (upper_right_ratio + fl (2 / 10)) < vert_ratio then Some ''1''
            else None))"

text \<open>The decision list of the classifier on three given float densities.\<close>

definition decide_1_7 :: "real \<Rightarrow> real \<Rightarrow> real \<Rightarrow> string option" where
  "decide_1_7 top_ratio vert_ratio upper_right_ratio =
     (if fl (5 / 10) \<le> top_ratio \<and> vert_ratio < fl (7 / 10) then Some ''7''
      else if top_ratio \<le> fl (35 / 100) \<and> fl (65 / 100) \<le> vert_ratio then Some ''1''
      else if fl (35 / 100) < upper_right_ratio \<and> fl (4 / 10) < top_ratio then Some ''7''
      else if fl (upper_right_ratio + fl (2 / 10)) < vert_ratio then Some ''1''
      else None)"

text \<open>The decision list as the spec words it, on exact densities and with the exact
  thresholds.\<close>

definition decide_1_7_spec :: "real \<Rightarrow> real \<Rightarrow> real \<Rightarrow> string option" where
  "decide_1_7_spec top_density vert_density upper_right_density =
     (if 1 / 2 \<le> top_density \<and> vert_density < 7 / 10 then Some ''7''
      else if top_density \<le> 35 / 100 \<and> 65 / 100 \<le> vert_density then Some ''1''
      else if 35 / 100 < upper_right_density \<and> 4 / 10 < top_density then Some ''7''
      else if upper_right_density + 2 / 10 < vert_density then Some ''1''
      else None)"

text \<open>Sample images: 8 by 10 with the two top rows lit; crops of 1 by 20, 18 by 4,
  5 by 2 and 8 by 10 pixels.\<close>

definition image_8x10 :: image where
  "image_8x10 = \<lparr>img_width = 8, img_height = 10,
     img_data = replicate 16 255 @ replicate 64 0\<rparr>"

definition crop_1x20 :: image where
  "crop_1x20 = \<lparr>img_width = 1, img_height = 20,
     img_data = [255, 255, 0, 0, 0] @ replicate 8 255 @ replicate 7 0\<rparr>"

definition crop_18x4 :: image where
  "crop_18x4 = \<lparr>img_width = 18, img_height = 4,
     img_data =
       replicate 8 0 @ replicate 3 255 @ replicate 7 0
       @ replicate 8 0 @ replicate 3 255 @ replicate 1 0 @ replicate 6 255
       @ replicate 8 0 @ replicate 3 255 @ replicate 7 0
       @ replicate 8 0 @ replicate 3 255 @ replicate 7 0\<rparr>"

definition crop_8x10 :: image where
  "crop_8x10 = \<lparr>img_width = 8, img_height = 10,
     img_data =
       [0, 0, 0, 255, 255, 255, 0, 0,
        0, 0, 0, 255, 255, 255, 0, 0,
        0, 0, 0, 255, 255, 255, 255, 255,
        0, 0, 0, 255, 255, 255, 255, 0,
        0, 0, 0, 255, 255, 255, 255, 0,
        0, 0, 0, 255, 255, 255, 0, 0,
        0, 0, 0, 255, 255, 255, 0, 0,
        0, 0, 0, 0, 255, 255, 0, 0,
        0, 0, 0, 0, 255, 255, 0, 0,
        0, 0, 0, 0, 255, 255, 0, 0]\<rparr>"

definition crop_5x2 :: image where
  "crop_5x2 = \<lparr>img_width = 5, img_height = 2,
     img_data = [0, 255, 255, 255, 0, 0, 0, 0, 0, 0]\<rparr>"

section \<open>Regular expressions of \<open>OcrParser\<close>\<close>

text \<open>
  The text is ASCII. The patterns of \<open>OcrParser\<close> use character classes, bounded
  and unbounded greedy repetition of a class, sequence, alternative, greedy option,
  capturing groups and case-insensitive literals. \<open>rx_matches r caps s\<close> lists every
  way \<open>r\<close> matches a prefix of \<open>s\<close>, as the groups captured and the input left, in the
  order in which a backtracking matcher tries them; the head is the match that
  Python's \<open>re\<close> reports at this position.
\<close>

datatype rx =
    Cls "char list"
  | Rep nat nat "char list"
  | Star "char list"
  | Lit string
  | Seq rx rx
  | Alt rx rx
  | Opt rx
  | Grp nat rx

type_synonym caps = "(nat \<times> string) list"

definition lower_char :: "char \<Rightarrow> char" where
  "lower_char c =
     (if (65::nat) \<le> of_char c \<and> of_char c \<le> (90::nat)
      then char_of (of_char c + (32::nat)) else c)"

definition lower :: "string \<Rightarrow> string" where
  "lower s = map lower_char s"

text \<open>The greedy repetition \<open>cs{m,n}\<close> of a class: the longest run first.\<close>

definition rep_matches :: "nat \<Rightarrow> nat \<Rightarrow> char list \<Rightarrow> caps \<Rightarrow> string \<Rightarrow> (caps \<times> string) list" where
  "rep_matches m n cs caps s =
     (let k = length (takeWhile (\<lambda>c. c \<in> set cs) (take n s))
      in map (\<lambda>j. (caps, drop j s)) (rev [m..<Suc k]))"

fun rx_matches :: "rx \<Rightarrow> caps \<Rightarrow> string \<Rightarrow> (caps \<times> string) list" where
  "rx_matches (Cls cs) caps s =
     (case s of [] \<Rightarrow> [] | c # t \<Rightarrow> if c \<in> set cs then [(caps, t)] else [])"
| "rx_matches (Rep m n cs) caps s = rep_matches m n cs caps s"
| "rx_matches (Star cs) caps s = rep_matches 0 (length s) cs caps s"
| "rx_matches (Lit w) caps s =
     (if lower (take (length w) s) = lower w then [(caps, drop (length w) s)] else [])"
| "rx_matches (Seq a b) caps s =
     concat (map (\<lambda>(c, t). rx_matches b c t) (rx_matches a caps s))"
| "rx_matches (Alt a b) caps s = rx_matches a caps s @ rx_matches b caps s"
| "rx_matches (Opt a) caps s = rx_matches a caps s @ [(caps, s)]"
| "rx_matches (Grp g a) caps s =
     map (\<lambda>(c, t). ((g, take (length s - length t) s) # c, t)) (rx_matches a caps s)"

text \<open>\<open>match.group(g)\<close>\<close>

definition group :: "caps \<Rightarrow> nat \<Rightarrow> string" where
  "group caps g = (case map_of caps g of Some w \<Rightarrow> w | None \<Rightarrow> [])"

text \<open>\<open>pattern.search(s)\<close>: the first position with a match; the groups and the
  input after the match.\<close>

fun rx_search :: "rx \<Rightarrow> string \<Rightarrow> (caps \<times> string) option" where
  "rx_search r [] = (case rx_matches r [] [] of [] \<Rightarrow> None | m # _ \<Rightarrow> Some m)"
| "rx_search r (c # cs) =
     (case rx_matches r [] (c # cs) of [] \<Rightarrow> rx_search r cs | m # _ \<Rightarrow> Some m)"

text \<open>\<open>pattern.finditer(s)\<close>: the matches from left to right, each search starting
  where the last match ended. No pattern below matches the empty string, so every
  match leaves less input.\<close>

function rx_finditer :: "rx \<Rightarrow> string \<Rightarrow> caps list" where
  "rx_finditer r s =
     (case rx_search r s of
        None \<Rightarrow> []
      | Some (caps, t) \<Rightarrow> if length t < length s then caps # rx_finditer r t else [caps])"
  by pat_completeness auto
termination
  by (relation "measure (\<lambda>(r, s). length s)") auto

definition digits :: "char list" where
  "digits = ''0123456789''"

text \<open>ASCII white space, as \<open>\s\<close> and \<open>str.strip\<close> take it: tab to carriage return,
  the four separators \<open>0x1C\<close> to \<open>0x1F\<close>, and the blank.\<close>

definition spaces :: "char list" where
  "spaces = [CHR 0x09, CHR 0x0A, CHR 0x0B, CHR 0x0C, CHR 0x0D,
             CHR 0x1C, CHR 0x1D, CHR 0x1E, CHR 0x1F, CHR 0x20]"

text \<open>\<open>\d{1,6}(?:[.,]\d{1,2})?\<close>\<close>

definition ratio_side :: rx where
  "ratio_side = Seq (Rep 1 6 digits) (Opt (Seq (Cls ''.,'') (Rep 1 2 digits)))"

text \<open>\<open>ratio_re\<close>, \<open>items_re\<close>, \<open>price_re\<close> and \<open>number_re\<close>\<close>

definition ratio_re :: rx where
  "ratio_re =
     Seq (Grp 1 ratio_side) (Seq (Star spaces) (Seq (Cls '':/'') (Seq (Star spaces)
       (Grp 2 ratio_side))))"

definition items_re :: rx where
  "items_re = Seq (Grp 1 (Rep 1 6 digits)) (Seq (Star spaces) (Seq (Lit ''item'') (Opt (Lit ''s''))))"

definition price_re :: rx where
  "price_re =
     Seq (Grp 1 (Rep 1 8 digits)) (Seq (Star spaces)
       (Alt (Seq (Lit ''orb'') (Opt (Lit ''s''))) (Lit ''orb'')))"

definition number_re :: rx where
  "number_re = Grp 1 (Rep 1 8 digits)"

section \<open>The fallback text parser\<close>

text \<open>\<open>str.strip()\<close>, \<open>str.splitlines()\<close>, \<open>" ".join\<close> and the substring test \<open>in\<close>\<close>

definition strip :: "string \<Rightarrow> string" where
  "strip s = rev (dropWhile (\<lambda>c. c \<in> set spaces) (rev (dropWhile (\<lambda>c. c \<in> set spaces) s)))"

definition line_breaks :: "char list" where
  "line_breaks = [CHR 0x0A, CHR 0x0B, CHR 0x0C, CHR 0x0D, CHR 0x1C, CHR 0x1D, CHR 0x1E]"

fun split_aux :: "string \<Rightarrow> string \<Rightarrow> string list" where
  "split_aux [] cur = (if cur = [] then [] else [rev cur])"
| "split_aux [c] cur = (if c \<in> set line_breaks then [rev cur] else [rev (c # cur)])"
| "split_aux (c # d # cs) cur =
     (if c = CHR 0x0D \<and> d = CHR 0x0A then rev cur # split_aux cs []
      else if c \<in> set line_breaks then rev cur # split_aux (d # cs) []
      else split_aux (d # cs) (c # cur))"

definition splitlines :: "string \<Rightarrow> string list" where
  "splitlines s = split_aux s []"

fun join_blank :: "string list \<Rightarrow> string" where
  "join_blank [] = []"
| "join_blank [l] = l"
| "join_blank (l # ls) = l @ '' '' @ join_blank ls"

fun contains :: "string \<Rightarrow> string \<Rightarrow> bool" where
  "contains w [] = (w = [])"
| "contains w (c # cs) = (take (length w) (c # cs) = w \<or> contains w cs)"

text \<open>\<open>int\<close> of a digit string, \<open>float\<close> of a number with \<open>,\<close> read as \<open>.\<close>, and
  \<open>int\<close> of a float (truncation).\<close>

definition int_of_digits :: "string \<Rightarrow> int" where
  "int_of_digits ds = foldl (\<lambda>a c. 10 * a + int (of_char c - 48)) 0 ds"

definition float_of_token :: "string \<Rightarrow> real" where
  "float_of_token w =
     (let ip = takeWhile (\<lambda>c. c \<in> set digits) w;
          fp = drop (Suc (length ip)) w
      in of_int (int_of_digits ip) + of_int (int_of_digits fp) / 10 ^ length fp)"

definition py_int :: "real \<Rightarrow> int" where
  "py_int x = (if 0 \<le> x then \<lfloor>x\<rfloor> else \<lceil>x\<rceil>)"

text \<open>\<open>OcrParser._collect_ratios\<close>, \<open>_extract_numbers\<close>, \<open>_extract_ratio_numbers\<close>\<close>

definition collect_ratios :: "string \<Rightarrow> (real \<times> real) list" where
  "collect_ratios text =
     map (\<lambda>m. (float_of_token (group m 1), float_of_token (group m 2)))
       (rx_finditer ratio_re text)"

definition extract_numbers :: "string \<Rightarrow> int list" where
  "extract_numbers text = map (\<lambda>m. int_of_digits (group m 1)) (rx_finditer number_re text)"

definition extract_ratio_numbers :: "string \<Rightarrow> int list" where
  "extract_ratio_numbers text =
     concat (map (\<lambda>(num, den). [py_int num, py_int den]) (collect_ratios text))"

text \<open>\<open>OcrParser._remove_once\<close>: \<open>list.remove\<close> drops the first occurrence; a missing
  value is ignored.\<close>

definition remove_once :: "int list \<Rightarrow> int \<Rightarrow> int list" where
  "remove_once values target = remove1 target values"

text \<open>\<open>max(ratios, key=lambda pair: (pair[0], pair[1]))\<close>: the first greatest pair in
  the lexicographic order.\<close>

definition pair_less :: "real \<times> real \<Rightarrow> real \<times> real \<Rightarrow> bool" where
  "pair_less p q = (fst p < fst q \<or> (fst p = fst q \<and> snd p < snd q))"

definition max_pair :: "(real \<times> real) list \<Rightarrow> real \<times> real" where
  "max_pair ps = foldl (\<lambda>best p. if pair_less best p then p else best) (hd ps) (tl ps)"

text \<open>\<open>min(numbers)\<close> and \<open>max(numbers)\<close> on a non-empty list\<close>

definition py_min :: "int list \<Rightarrow> int" where
  "py_min xs = foldl (\<lambda>best x. if x < best then x else best) (hd xs) (tl xs)"

definition py_max :: "int list \<Rightarrow> int" where
  "py_max xs = foldl (\<lambda>best x. if best < x then x else best) (hd xs) (tl xs)"

text \<open>\<open>OcrParser._find_ratio\<close>\<close>

fun find_ratio_labelled :: "string list \<Rightarrow> (real \<times> real) option" where
  "find_ratio_labelled [] = None"
| "find_ratio_labelled (line # rest) =
     (if \<not> contains ''ratio'' (lower line) then find_ratio_labelled rest
      else
        (let m = rx_search ratio_re line;
             m = (if m = None \<and> rest \<noteq> [] then rx_search ratio_re (hd rest) else m)
         in case m of
              Some (caps, _) \<Rightarrow> Some (float_of_token (group caps 1), float_of_token (group caps 2))
            | None \<Rightarrow> find_ratio_labelled rest))"

definition find_ratio :: "string list \<Rightarrow> real option \<times> real option" where
  "find_ratio lines =
     (case find_ratio_labelled lines of
        Some (n, d) \<Rightarrow> (Some n, Some d)
      | None \<Rightarrow>
          (let ratios = collect_ratios (join_blank lines)
           in if ratios \<noteq> [] then (Some (fst (max_pair ratios)), Some (snd (max_pair ratios)))
              else (None, None)))"

text \<open>\<open>OcrParser._find_number_near_keyword\<close>, \<open>_find_items\<close> and \<open>_find_price\<close>\<close>

fun find_number_near_keyword :: "string list \<Rightarrow> string \<Rightarrow> int option" where
  "find_number_near_keyword [] keyword = None"
| "find_number_near_keyword (line # rest) keyword =
     (if \<not> contains keyword (lower line) then find_number_near_keyword rest keyword
      else
        (let m = rx_search number_re line;
             m = (if m = None \<and> rest \<noteq> [] then rx_search number_re (hd rest) else m)
         in case m of
              Some (caps, _) \<Rightarrow> Some (int_of_digits (group caps 1))
            | None \<Rightarrow> find_number_near_keyword rest keyword))"

fun first_match :: "rx \<Rightarrow> string list \<Rightarrow> int option" where
  "first_match r [] = None"
| "first_match r (line # rest) =
     (case rx_search r line of
        Some (caps, _) \<Rightarrow> Some (int_of_digits (group caps 1))
      | None \<Rightarrow> first_match r rest)"

definition find_items :: "string list \<Rightarrow> int option" where
  "find_items lines =
     (case first_match items_re lines of
        Some v \<Rightarrow> Some v
      | None \<Rightarrow> find_number_near_keyword lines ''item'')"

definition find_price :: "string list \<Rightarrow> int option" where
  "find_price lines =
     (case first_match price_re lines of
        Some v \<Rightarrow> Some v
      | None \<Rightarrow> find_number_near_keyword lines ''price'')"

text \<open>The truth value of an optional float: \<open>None\<close> and \<open>0.0\<close> are false.\<close>

definition truthy :: "real option \<Rightarrow> bool" where
  "truthy v = (case v of None \<Rightarrow> False | Some x \<Rightarrow> x \<noteq> 0)"

text \<open>\<open>OcrParser.parse\<close>. \<open>text_lines\<close> is its list \<open>lines\<close> and \<open>remaining_numbers\<close>
  its list \<open>numbers\<close> after the loop over \<open>_extract_ratio_numbers\<close>.\<close>

definition text_lines :: "string \<Rightarrow> string list" where
  "text_lines raw = filter (\<lambda>l. l \<noteq> []) (map strip (splitlines raw))"

definition remaining_numbers :: "string \<Rightarrow> int list" where
  "remaining_numbers raw = foldl remove_once (extract_numbers raw) (extract_ratio_numbers raw)"

definition parse :: "string \<Rightarrow> ParseResult" where
  "parse text =
     (let raw = strip text in
      if raw = [] then
        \<lparr>items = None, listing_price = None, ratio_num = None, ratio_den = None,
         raw_text = raw, left_value = None, right_value = None\<rparr>
      else
        (let lines = text_lines raw;
             (rnum, rden) = find_ratio lines;
             items0 = find_items lines;
             price0 = find_price lines;
             (items1, price1) =
               (if (items0 = None \<or> price0 = None) \<and> truthy rnum \<and> truthy rden then
                  (let numbers = remaining_numbers raw
                   in if numbers \<noteq> [] then
                        (if items0 = None then Some (py_min numbers) else items0,
                         if price0 = None then Some (py_max numbers) else price0)
                      else (items0, price0))
                else (items0, price0))
         in \<lparr>items = items1, listing_price = price1, ratio_num = rnum, ratio_den = rden,
             raw_text = raw, left_value = None, right_value = None\<rparr>))"

text \<open>Sample texts: \<open>3:7 120 45\<close>, and three lines \<open>Ratio 3:7\<close>, \<open>120 items\<close>, \<open>45\<close>.\<close>

definition text_plain :: string where
  "text_plain = ''3:7 120 45''"

definition text_labelled :: string where
  "text_labelled = ''Ratio 3:7'' @ [CHR 0x0A] @ ''120 items'' @ [CHR 0x0A] @ ''45''"

section \<open>Properties\<close>

subsection \<open>Rounding\<close>

lemma py_round_nearest: "\<bar>of_int (py_round x) - x\<bar> \<le> 1 / 2"
  unfolding py_round_def Let_def
  by auto

lemma py_round_tie_even: "x - of_int \<lfloor>x\<rfloor> = 1 / 2 \<Longrightarrow> even (py_round x)"
  by (simp add: py_round_def Let_def)

lemma py_round_of_int: "py_round (of_int i) = i"
  by (simp add: py_round_def Let_def)

lemma bit_length_bounds:
  "0 < n \<Longrightarrow> 0 < bit_length n \<and> 2 ^ nat (bit_length n - 1) \<le> n \<and> n < 2 ^ nat (bit_length n)"
proof (induction n rule: bit_length.induct)
  case (1 n)
  show ?case
  proof (cases "n div 2 = 0")
    case True
    with "1.prems" have "n = 1" by presburger
    moreover have "bit_length 1 = 1"
      by (simp add: bit_length.simps [of 1] bit_length.simps [of 0])
    ultimately show ?thesis by simp
  next
    case False
    with "1.prems" have pos: "0 < n div 2" by presburger
    from "1.IH" [OF _ pos] "1.prems"
    have ih: "0 < bit_length (n div 2)" "2 ^ nat (bit_length (n div 2) - 1) \<le> n div 2"
      "n div 2 < 2 ^ nat (bit_length (n div 2))"
      by simp_all
    define k where "k = nat (bit_length (n div 2))"
    have k: "bit_length (n div 2) = int k" "0 < k"
      using ih(1) by (simp_all add: k_def)
    have bl: "bit_length n = int k + 1"
      using "1.prems" k(1) by (subst bit_length.simps) simp
    from ih(2) k have lo: "2 ^ (k - 1) \<le> n div 2"
      by (simp add: nat_diff_distrib)
    from ih(3) k have hi: "n div 2 < 2 ^ k" by simp
    have "2 * 2 ^ (k - 1) = (2::int) ^ k"
      using k(2) by (cases k) simp_all
    with lo have "2 ^ k \<le> n" by linarith
    moreover from hi have "n < 2 * 2 ^ k" by linarith
    ultimately show ?thesis
      using bl by (simp add: nat_add_distrib)
  qed
qed

lemma float_exponent_bounds:
  assumes "0 < x"
  shows "2 powi (float_exponent x) \<le> x \<and> x < 2 powi (float_exponent x + 1)"
proof (cases "1 \<le> x")
  case True
  define n where "n = \<lfloor>x\<rfloor>"
  have n: "0 < n" using True by (simp add: n_def)
  note b = bit_length_bounds [OF n]
  define k where "k = nat (bit_length n)"
  have k: "bit_length n = int k" "0 < k" using b by (simp_all add: k_def)
  have e: "float_exponent x = int k - 1"
    using True by (simp add: float_exponent_def n_def [symmetric] k)
  have "(2::int) ^ (k - 1) \<le> n" using b k by (simp add: nat_diff_distrib)
  then have "(2::real) ^ (k - 1) \<le> of_int n"
    by (metis of_int_le_iff of_int_numeral of_int_power)
  also have "\<dots> \<le> x" by (simp add: n_def)
  finally have lo: "(2::real) ^ (k - 1) \<le> x" .
  have "n + 1 \<le> 2 ^ k" using b k by simp
  then have "of_int (n + 1) \<le> (2::real) ^ k"
    by (metis of_int_le_iff of_int_numeral of_int_power)
  moreover have "x < of_int (n + 1)" by (simp add: n_def)
  ultimately have hi: "x < (2::real) ^ k" by linarith
  have "2 powi (int k - 1) = (2::real) ^ (k - 1)"
    using k(2) by (simp add: power_int_def nat_diff_distrib)
  moreover have "2 powi (int k - 1 + 1) = (2::real) ^ k"
    by (simp add: power_int_def)
  ultimately show ?thesis using lo hi e by simp
next
  case False
  with assms have x1: "x < 1" by simp
  define y where "y = 1 / x"
  have y1: "1 < y" using assms x1 by (simp add: y_def)
  define m where "m = \<lceil>y\<rceil> - 1"
  have m: "0 < m" using y1 by (simp add: m_def)
  note b = bit_length_bounds [OF m]
  define k where "k = nat (bit_length m)"
  have k: "bit_length m = int k" "0 < k" using b by (simp_all add: k_def)
  have e: "float_exponent x = - int k"
    using False by (simp add: float_exponent_def y_def [symmetric] m_def [symmetric] k)
  have "m + 1 \<le> 2 ^ k" using b k by simp
  then have "of_int (m + 1) \<le> (2::real) ^ k"
    by (metis of_int_le_iff of_int_numeral of_int_power)
  moreover have "y \<le> of_int (m + 1)" by (simp add: m_def)
  ultimately have yhi: "y \<le> 2 ^ k" by linarith
  have "(2::int) ^ (k - 1) \<le> m" using b k by (simp add: nat_diff_distrib)
  then have "(2::real) ^ (k - 1) \<le> of_int m"
    by (metis of_int_le_iff of_int_numeral of_int_power)
  moreover have "of_int m < y" by (simp add: m_def) linarith
  ultimately have ylo: "2 ^ (k - 1) < y" by linarith
  have p1: "2 powi (- int k) = 1 / (2::real) ^ k"
    by (simp add: power_int_def field_simps)
  have p2: "2 powi (- int k + 1) = 1 / (2::real) ^ (k - 1)"
    using k(2) by (cases k) (simp_all add: power_int_def field_simps)
  have "1 / (2::real) ^ k \<le> x"
    using yhi assms by (simp add: y_def field_simps)
  moreover have "x < 1 / (2::real) ^ (k - 1)"
    using ylo assms by (simp add: y_def field_simps)
  ultimately show ?thesis using e p1 p2 by simp
qed

lemma two_powi_1024: "(2::real) powi 1024 = 2 ^ 1024"
  by (simp add: power_int_def)

lemma float_overflow_iff: "float_overflow x \<longleftrightarrow> 2 ^ 1024 \<le> \<bar>x\<bar>"
proof (cases "x = 0")
  case True
  then show ?thesis by (simp add: float_overflow_def)
next
  case False
  then have pos: "0 < \<bar>x\<bar>" by simp
  note b = float_exponent_bounds [OF pos]
  show ?thesis
  proof (cases "1024 \<le> float_exponent \<bar>x\<bar>")
    case True
    then have "(2::real) powi 1024 \<le> 2 powi (float_exponent \<bar>x\<bar>)"
      by (intro power_int_increasing) simp_all
    with b True False show ?thesis
      unfolding float_overflow_def two_powi_1024 by linarith
  next
    case e: False
    then have "(2::real) powi (float_exponent \<bar>x\<bar> + 1) \<le> 2 powi 1024"
      by (intro power_int_increasing) simp_all
    with b e False show ?thesis
      unfolding float_overflow_def two_powi_1024 by linarith
  qed
qed

lemma fl_error:
  assumes "x \<noteq> 0"
  shows "\<bar>fl x - x\<bar> \<le> 2 powi (max (float_exponent \<bar>x\<bar>) (- 1022) - 53)"
proof -
  define e where "e = max (float_exponent \<bar>x\<bar>) (- 1022)"
  define u :: real where "u = 2 powi (e - 52)"
  have u: "0 < u" by (simp add: u_def zero_less_power_int)
  have fl: "fl x = of_int (py_round (x / u)) * u"
    using assms by (simp add: fl_def Let_def e_def u_def)
  have "fl x - x = (of_int (py_round (x / u)) - x / u) * u"
    using u by (simp add: fl field_simps)
  then have "\<bar>fl x - x\<bar> = \<bar>of_int (py_round (x / u)) - x / u\<bar> * u"
    using u by (simp add: abs_mult)
  also have "\<dots> \<le> 1 / 2 * u"
    using py_round_nearest [of "x / u"] u by (intro mult_right_mono) simp_all
  also have "1 / 2 * u = 2 powi (e - 53)"
  proof -
    have "(2::real) powi (e - 52) = 2 powi (e - 53 + 1)" by simp
    also have "\<dots> = 2 powi (e - 53) * 2" by (subst power_int_add) simp_all
    finally show ?thesis by (simp add: u_def)
  qed
  finally show ?thesis by (simp add: e_def)
qed

lemma fl_bound: "\<bar>fl x\<bar> \<le> 2 * \<bar>x\<bar> + 1"
proof (cases "x = 0")
  case True
  then show ?thesis by (simp add: fl_def)
next
  case False
  then have pos: "0 < \<bar>x\<bar>" by simp
  note b = float_exponent_bounds [OF pos]
  note err = fl_error [OF False]
  show ?thesis
  proof (cases "- 1022 \<le> float_exponent \<bar>x\<bar>")
    case True
    then have "max (float_exponent \<bar>x\<bar>) (- 1022) = float_exponent \<bar>x\<bar>" by simp
    moreover have "(2::real) powi (float_exponent \<bar>x\<bar> - 53) \<le> 2 powi (float_exponent \<bar>x\<bar>)"
      by (intro power_int_increasing) simp_all
    ultimately have "\<bar>fl x - x\<bar> \<le> \<bar>x\<bar>" using err b by simp
    then show ?thesis by linarith
  next
    case e: False
    then have "max (float_exponent \<bar>x\<bar>) (- 1022) = - 1022" by simp
    moreover have "(2::real) powi (- 1022 - 53) \<le> 2 powi 0"
      by (intro power_int_increasing) simp_all
    ultimately have "\<bar>fl x - x\<bar> \<le> 1" using err by simp
    then show ?thesis by linarith
  qed
qed

lemma eps9_value: "fl (1 / 10 ^ 9) = 4835703278458517 / 4835703278458516698824704"
  by code_simp

lemma eps9_bounds: "1 / 10 ^ 9 \<le> fl (1 / 10 ^ 9)" "fl (1 / 10 ^ 9) < 1"
  unfolding eps9_value by simp_all

subsection \<open>Helper lemmas on the handlers\<close>

lemma resolve_mode_frame:
  "last_good (snd (resolve_mode s l r n d)) = last_good s"
  "pending_key (snd (resolve_mode s l r n d)) = pending_key s"
  "pending_count (snd (resolve_mode s l r n d)) = pending_count s"
  "bad_streak (snd (resolve_mode s l r n d)) = bad_streak s"
  "last_inputs (snd (resolve_mode s l r n d)) = last_inputs s"
  "calc_mode (snd (resolve_mode s l r n d)) = calc_mode s"
  by (simp_all add: resolve_mode_def Let_def split: option.splits prod.splits)

lemma handle_result_stability:
  "last_good (snd (handle_result s r)) = last_good (stability_step s r)"
  "pending_key (snd (handle_result s r)) = pending_key (stability_step s r)"
  "pending_count (snd (handle_result s r)) = pending_count (stability_step s r)"
  "bad_streak (snd (handle_result s r)) = bad_streak (stability_step s r)"
  using resolve_mode_frame[of "stability_step s r"]
  by (simp_all add: handle_result_def Let_def split_beta)

lemma is_valid_result_iff:
  "is_valid_result r \<longleftrightarrow>
     has_ratio r \<and> (left_value r \<noteq> None \<or> right_value r \<noteq> None)
     \<and> (\<forall>l. left_value r = Some l \<longrightarrow> 0 < l) \<and> (\<forall>v. right_value r = Some v \<longrightarrow> 0 < v)"
  by (auto simp: is_valid_result_def split: option.splits)

lemma stability_step_fields:
  "pending_key (stability_step s r) = (if is_valid_result r then Some (key r) else None)"
  "pending_count (stability_step s r) =
     (if is_valid_result r then (if pending_key s = Some (key r) then pending_count s + 1 else 1)
      else 0)"
  "last_good (stability_step s r) =
     (if is_valid_result r \<and> 2 \<le> pending_count (stability_step s r) then Some r else last_good s)"
  "bad_streak (stability_step s r) =
     (if is_valid_result r then (if 2 \<le> pending_count (stability_step s r) then 0 else bad_streak s)
      else bad_streak s + 1)"
  by (auto simp: stability_step_def Let_def)

lemma stability_step_frame:
  "calc_mode (stability_step s r) = calc_mode s"
  "last_inputs (stability_step s r) = last_inputs s"
  "auto_direction (stability_step s r) = auto_direction s"
  by (simp_all add: stability_step_def Let_def)

lemma handle_result_last_inputs:
  "last_inputs (snd (handle_result s r)) =
     (if is_valid_result r \<and> left_value r \<noteq> None \<and> right_value r \<noteq> None
      then Some (the (left_value r), the (right_value r)) else last_inputs s)"
  by (auto simp: handle_result_def Let_def split_beta resolve_mode_frame stability_step_frame)

lemma handle_result_calc_mode:
  "calc_mode (snd (handle_result s r)) = calc_mode s"
  by (simp add: handle_result_def Let_def split_beta resolve_mode_frame stability_step_frame)

lemma handle_result_mode_valid:
  "is_valid_result r \<Longrightarrow>
   shown_mode (fst (handle_result s r)) =
     fst (resolve_mode (stability_step s r) (left_value r) (right_value r) (ratio_num r) (ratio_den r))"
  by (simp add: handle_result_def Let_def split_beta)

lemma resolve_mode_delta:
  assumes "calc_mode s = ''auto''" and "last_inputs s = Some (ll, lr)"
    and "\<not> (\<bar>l - ll\<bar> = 0 \<and> \<bar>r - lr\<bar> = 0)"
  shows "fst (resolve_mode s (Some l) (Some r) n d) =
           (if \<bar>r - lr\<bar> \<le> \<bar>l - ll\<bar> then ''from_left'' else ''from_right'')"
  using assms
  by (auto simp: resolve_mode_def Let_def split: option.splits)

lemma reading_a_valid: "is_valid_result reading_a"
  using eps9_bounds(2) by (simp add: is_valid_result_def has_ratio_def reading_a_def)
lemma reading_a2_valid: "is_valid_result reading_a2"
  using eps9_bounds(2) by (simp add: is_valid_result_def has_ratio_def reading_a_def reading_a2_def)
lemma reading_b_valid: "is_valid_result reading_b"
  using eps9_bounds(2) by (simp add: is_valid_result_def has_ratio_def reading_b_def)
lemma reading_bad_invalid: "\<not> is_valid_result reading_bad"
  by (simp add: is_valid_result_def has_ratio_def reading_bad_def)
lemma key_reading_a: "key reading_a = (Some 3, Some 7, Some 50, Some 80)"
  by (simp add: key_def reading_a_def py_round2_def py_round_def)
lemma key_reading_a2: "key reading_a2 = (Some 3, Some 7, Some 50, Some 80)"
  by (simp add: key_def reading_a_def reading_a2_def py_round2_def py_round_def)
lemma key_reading_b: "key reading_b = (Some 3, Some 7, Some 52, Some 80)"
  by (simp add: key_def reading_b_def py_round2_def py_round_def)
lemma reading_a2_neq: "reading_a2 \<noteq> reading_a"
  by (simp add: reading_a2_def reading_a_def)

lemmas sample_simps = reading_a_valid reading_a2_valid reading_b_valid reading_bad_invalid
  key_reading_a key_reading_a2 key_reading_b

lemma sample_boxes:
  "left_value reading_a = Some 50" "right_value reading_a = Some 80"
  "left_value reading_b = Some 52" "right_value reading_b = Some 80"
  by (simp_all add: reading_a_def reading_b_def)

lemma init_window_auto: "calc_mode init_window = ''auto''"
  by (simp add: init_window_def)

lemma pending_inv_loaded: "pending_inv (loaded_window a b c sw m)"
  by (simp add: pending_inv_def loaded_window_def init_window_def)

lemma pending_inv_event: "pending_inv s \<Longrightarrow> pending_inv (apply_event s e)"
  by (cases e)
     (auto simp: pending_inv_def handle_result_stability stability_step_fields
        handle_error_def pick_region_def handle_selection_canceled_def set_region_def
        toggle_lock_def toggle_swap_def change_mode_def Let_def)

lemma pending_inv_run: "pending_inv s \<Longrightarrow> pending_inv (run s es)"
  unfolding run_def
  by (induction es arbitrary: s) (simp_all add: pending_inv_event)

subsection \<open>The debounce law\<close>

text \<open>
  C1 (as amended). A reading is valid iff it has a usable ratio, at least one box value is
  present and every present box value is positive. A valid reading whose key equals
  \<open>pending_key\<close> increments \<open>pending_count\<close>; any other valid reading sets
  \<open>pending_key\<close> to its key and \<open>pending_count\<close> to 1. \<open>last_good\<close> becomes
  the current reading exactly when the reading is valid and \<open>pending_count\<close> is then at
  least 2 (and \<open>bad_streak\<close> is then 0); otherwise it is unchanged. So two consecutive
  identical valid readings commit the second one (from any state with a non-negative
  count), two valid readings with different keys, the first of them not pending
  already, leave \<open>last_good\<close> as it was, and an invalid reading never changes it.
\<close>

theorem debounce_law:
  "(is_valid_result r \<longleftrightarrow>
      has_ratio r \<and> (left_value r \<noteq> None \<or> right_value r \<noteq> None)
      \<and> (\<forall>v. left_value r = Some v \<longrightarrow> 0 < v) \<and> (\<forall>v. right_value r = Some v \<longrightarrow> 0 < v))
   \<and> (is_valid_result r \<and> pending_key s = Some (key r) \<longrightarrow>
        pending_key (snd (handle_result s r)) = Some (key r)
        \<and> pending_count (snd (handle_result s r)) = pending_count s + 1)
   \<and> (is_valid_result r \<and> pending_key s \<noteq> Some (key r) \<longrightarrow>
        pending_key (snd (handle_result s r)) = Some (key r)
        \<and> pending_count (snd (handle_result s r)) = 1)
   \<and> last_good (snd (handle_result s r)) =
        (if is_valid_result r \<and> 2 \<le> pending_count (snd (handle_result s r))
         then Some r else last_good s)
   \<and> (is_valid_result r \<and> 2 \<le> pending_count (snd (handle_result s r)) \<longrightarrow>
        bad_streak (snd (handle_result s r)) = 0)
   \<and> (is_valid_result r \<and> 0 \<le> pending_count s \<longrightarrow>
        last_good (snd (handle_result (snd (handle_result s r)) r)) = Some r)
   \<and> (is_valid_result r1 \<and> is_valid_result r2 \<and> key r1 \<noteq> key r2
        \<and> pending_key s \<noteq> Some (key r1) \<longrightarrow>
        last_good (snd (handle_result (snd (handle_result s r1)) r2)) = last_good s)
   \<and> (\<not> is_valid_result r \<longrightarrow> last_good (snd (handle_result s r)) = last_good s)"
proof -
  have valid: "is_valid_result r \<longleftrightarrow>
      has_ratio r \<and> (left_value r \<noteq> None \<or> right_value r \<noteq> None)
      \<and> (\<forall>v. left_value r = Some v \<longrightarrow> 0 < v) \<and> (\<forall>v. right_value r = Some v \<longrightarrow> 0 < v)"
    by (rule is_valid_result_iff)
  have rest: "(is_valid_result r \<and> pending_key s = Some (key r) \<longrightarrow>
        pending_key (snd (handle_result s r)) = Some (key r)
        \<and> pending_count (snd (handle_result s r)) = pending_count s + 1)
   \<and> (is_valid_result r \<and> pending_key s \<noteq> Some (key r) \<longrightarrow>
        pending_key (snd (handle_result s r)) = Some (key r)
        \<and> pending_count (snd (handle_result s r)) = 1)
   \<and> last_good (snd (handle_result s r)) =
        (if is_valid_result r \<and> 2 \<le> pending_count (snd (handle_result s r))
         then Some r else last_good s)
   \<and> (is_valid_result r \<and> 2 \<le> pending_count (snd (handle_result s r)) \<longrightarrow>
        bad_streak (snd (handle_result s r)) = 0)
   \<and> (is_valid_result r \<and> 0 \<le> pending_count s \<longrightarrow>
        last_good (snd (handle_result (snd (handle_result s r)) r)) = Some r)
   \<and> (is_valid_result r1 \<and> is_valid_result r2 \<and> key r1 \<noteq> key r2
        \<and> pending_key s \<noteq> Some (key r1) \<longrightarrow>
        last_good (snd (handle_result (snd (handle_result s r1)) r2)) = last_good s)
   \<and> (\<not> is_valid_result r \<longrightarrow> last_good (snd (handle_result s r)) = last_good s)"
    by (simp add: handle_result_stability stability_step_fields)
  from valid rest show ?thesis by blast
qed

text \<open>The law at the two sample readings, starting from the fresh window.\<close>

theorem debounce_law_witness:
  "is_valid_result reading_a \<and> is_valid_result reading_b \<and> key reading_a \<noteq> key reading_b
   \<and> pending_key init_window \<noteq> Some (key reading_a) \<and> 0 \<le> pending_count init_window
   \<and> pending_count (snd (handle_result init_window reading_a)) = 1
   \<and> pending_key (snd (handle_result init_window reading_a)) = Some (key reading_a)
   \<and> pending_count (snd (handle_result (snd (handle_result init_window reading_a)) reading_a)) = 2
   \<and> bad_streak (snd (handle_result (snd (handle_result init_window reading_a)) reading_a)) = 0
   \<and> last_good (snd (handle_result (snd (handle_result init_window reading_a)) reading_a))
       = Some reading_a
   \<and> last_good (snd (handle_result (snd (handle_result init_window reading_a)) reading_b)) = None
   \<and> \<not> is_valid_result reading_bad
   \<and> last_good (snd (handle_result
        (snd (handle_result (snd (handle_result init_window reading_a)) reading_a)) reading_bad))
       = Some reading_a"
  using debounce_law [of reading_a init_window reading_a reading_b]
    debounce_law [of reading_a "snd (handle_result init_window reading_a)" reading_a reading_b]
    debounce_law [of reading_bad
      "snd (handle_result (snd (handle_result init_window reading_a)) reading_a)"
      reading_a reading_b]
  by (simp add: sample_simps init_window_def)

text \<open>
  C1 as stated fails: the third reading with the pending key moves the count from 2 to 3
  and still replaces \<open>last_good\<close>, here by a reading with another raw text.
\<close>

theorem update_at_third_reading_counterexample:
  "pending_count (run init_window [Reading reading_a, Reading reading_a]) = 2
   \<and> last_good (run init_window [Reading reading_a, Reading reading_a]) = Some reading_a
   \<and> is_valid_result reading_a2
   \<and> pending_count (run init_window [Reading reading_a, Reading reading_a, Reading reading_a2]) = 3
   \<and> last_good (run init_window [Reading reading_a, Reading reading_a, Reading reading_a2])
       = Some reading_a2
   \<and> reading_a2 \<noteq> reading_a"
  by (simp add: run_def handle_result_stability stability_step_fields sample_simps
      init_window_def reading_a2_neq)

subsection \<open>Direction in auto mode\<close>

text \<open>
  C2 (as amended). In auto mode, with both box values present, the last accepted inputs
  recorded and the two deltas not both zero, the resolver returns \<open>from_left\<close> when the
  left value changed at least as much as the right one and \<open>from_right\<close> otherwise: the
  side that changed more becomes the reference. For two consecutive valid cycles with
  left going from 50 to 52 and right staying 80 the resolved direction is \<open>from_left\<close>.
\<close>

theorem auto_direction_follows_larger_delta:
  "(calc_mode s = ''auto'' \<and> last_inputs s = Some (ll, lr)
      \<and> \<not> (\<bar>l - ll\<bar> = 0 \<and> \<bar>r - lr\<bar> = 0) \<longrightarrow>
      fst (resolve_mode s (Some l) (Some r) n d) =
        (if \<bar>r - lr\<bar> \<le> \<bar>l - ll\<bar> then ''from_left'' else ''from_right''))
   \<and> (calc_mode s = ''auto'' \<and> is_valid_result r1 \<and> is_valid_result r2
      \<and> left_value r1 = Some 50 \<and> right_value r1 = Some 80
      \<and> left_value r2 = Some 52 \<and> right_value r2 = Some 80 \<longrightarrow>
      shown_mode (fst (handle_result (snd (handle_result s r1)) r2)) = ''from_left'')"
proof (intro conjI impI)
  assume "calc_mode s = ''auto'' \<and> last_inputs s = Some (ll, lr)
      \<and> \<not> (\<bar>l - ll\<bar> = 0 \<and> \<bar>r - lr\<bar> = 0)"
  then show "fst (resolve_mode s (Some l) (Some r) n d) =
        (if \<bar>r - lr\<bar> \<le> \<bar>l - ll\<bar> then ''from_left'' else ''from_right'')"
    by (simp add: resolve_mode_delta)
next
  assume a: "calc_mode s = ''auto'' \<and> is_valid_result r1 \<and> is_valid_result r2
      \<and> left_value r1 = Some 50 \<and> right_value r1 = Some 80
      \<and> left_value r2 = Some 52 \<and> right_value r2 = Some 80"
  let ?s1 = "stability_step (snd (handle_result s r1)) r2"
  from a have m: "calc_mode ?s1 = ''auto''"
    by (simp add: stability_step_frame handle_result_calc_mode)
  from a have li: "last_inputs ?s1 = Some (50, 80)"
    by (simp add: stability_step_frame handle_result_last_inputs)
  have "fst (resolve_mode ?s1 (Some 52) (Some 80) (ratio_num r2) (ratio_den r2)) = ''from_left''"
    using resolve_mode_delta [OF m li, of 52 80] by simp
  with a show "shown_mode (fst (handle_result (snd (handle_result s r1)) r2)) = ''from_left''"
    by (simp add: handle_result_mode_valid)
qed

text \<open>The rule at the sample readings: left 50 to 52 with right fixed, and right 80 to 90
  with left fixed.\<close>

theorem auto_direction_follows_larger_delta_witness:
  "calc_mode init_window = ''auto'' \<and> is_valid_result reading_a \<and> is_valid_result reading_b
   \<and> left_value reading_a = Some 50 \<and> right_value reading_a = Some 80
   \<and> left_value reading_b = Some 52 \<and> right_value reading_b = Some 80
   \<and> last_inputs (snd (handle_result init_window reading_a)) = Some (50, 80)
   \<and> fst (resolve_mode (snd (handle_result init_window reading_a)) (Some 50) (Some 90)
        (Some 3) (Some 7)) = ''from_right''
   \<and> shown_mode (fst (handle_result (snd (handle_result init_window reading_a)) reading_b))
       = ''from_left''"
  using auto_direction_follows_larger_delta
      [where s = init_window and ?r1.0 = reading_a and ?r2.0 = reading_b]
    auto_direction_follows_larger_delta
      [where s = "snd (handle_result init_window reading_a)" and ll = 50 and lr = 80
         and l = 50 and r = 90 and n = "Some 3" and d = "Some 7"]
  by (simp add: sample_simps sample_boxes init_window_auto handle_result_last_inputs
      handle_result_calc_mode)

text \<open>C2 as stated fails on its own worked example: the direction is not \<open>from_right\<close>.\<close>

theorem scenario_d_counterexample:
  "is_valid_result reading_a \<and> is_valid_result reading_b
   \<and> left_value reading_a = Some 50 \<and> right_value reading_a = Some 80
   \<and> left_value reading_b = Some 52 \<and> right_value reading_b = Some 80
   \<and> calc_mode init_window = ''auto''
   \<and> shown_mode (fst (handle_result (snd (handle_result init_window reading_a)) reading_b))
       \<noteq> ''from_right''"
proof -
  have m: "calc_mode (stability_step (snd (handle_result init_window reading_a)) reading_b)
             = ''auto''"
    by (simp add: stability_step_frame handle_result_calc_mode init_window_auto)
  have li: "last_inputs (stability_step (snd (handle_result init_window reading_a)) reading_b)
              = Some (50, 80)"
    by (simp add: stability_step_frame handle_result_last_inputs sample_simps sample_boxes)
  have "shown_mode (fst (handle_result (snd (handle_result init_window reading_a)) reading_b))
          = ''from_left''"
    using resolve_mode_delta [OF m li, of 52 80]
    by (simp add: handle_result_mode_valid sample_simps sample_boxes)
  then show ?thesis
    by (simp add: sample_simps sample_boxes init_window_auto)
qed

subsection \<open>Reset triggers\<close>

text \<open>
  C3 (as amended). Region re-selection and the side-swap toggle each clear
  \<open>last_good\<close>, \<open>pending_key\<close> and \<open>pending_count\<close>; the side-swap toggle and the mode
  change clear \<open>last_inputs\<close>; region re-selection leaves \<open>last_inputs\<close> and the mode
  change leaves \<open>last_good\<close>, \<open>pending_key\<close> and \<open>pending_count\<close> as they were.
\<close>

theorem reset_triggers:
  "last_good (set_region s g) = None \<and> pending_key (set_region s g) = None
   \<and> pending_count (set_region s g) = 0 \<and> last_inputs (set_region s g) = last_inputs s
   \<and> last_good (toggle_swap s c) = None \<and> pending_key (toggle_swap s c) = None
   \<and> pending_count (toggle_swap s c) = 0 \<and> last_inputs (toggle_swap s c) = None
   \<and> last_inputs (change_mode s i t) = None
   \<and> last_good (change_mode s i t) = last_good s
   \<and> pending_key (change_mode s i t) = pending_key s
   \<and> pending_count (change_mode s i t) = pending_count s"
  by (simp add: set_region_def toggle_swap_def change_mode_def Let_def)

text \<open>C3 as stated fails: a committed reading and its pending count survive a mode change.\<close>

theorem mode_change_keeps_last_good_counterexample:
  "last_good (run init_window [Reading reading_a, Reading reading_a, ChangeMode 1 ''from right'']) = Some reading_a
   \<and> pending_key (run init_window [Reading reading_a, Reading reading_a, ChangeMode 1 ''from right'']) = Some (key reading_a)
   \<and> pending_count (run init_window [Reading reading_a, Reading reading_a, ChangeMode 1 ''from right'']) = 2"
  by (simp add: run_def change_mode_def handle_result_stability stability_step_fields
      sample_simps init_window_def)

subsection \<open>Pending count and bad streak\<close>

text \<open>
  C4 (as amended). After every processed reading \<open>pending_count\<close> is the old count plus
  one if the reading is valid with the pending key, 1 if it is valid with another key,
  and 0 if it is invalid. A valid reading with another key leaves \<open>bad_streak\<close>
  unchanged; an invalid reading also clears \<open>pending_key\<close> and adds one to
  \<open>bad_streak\<close>.
\<close>

theorem pending_and_bad_streak:
  "pending_count (snd (handle_result s r)) =
     (if is_valid_result r
      then (if pending_key s = Some (key r) then pending_count s + 1 else 1)
      else 0)
   \<and> (is_valid_result r \<and> pending_key s \<noteq> Some (key r) \<longrightarrow>
        bad_streak (snd (handle_result s r)) = bad_streak s)
   \<and> (\<not> is_valid_result r \<longrightarrow>
        pending_key (snd (handle_result s r)) = None
        \<and> bad_streak (snd (handle_result s r)) = bad_streak s + 1)"
  by (simp add: handle_result_stability stability_step_fields)

text \<open>Both resets at the sample readings.\<close>

theorem pending_and_bad_streak_witness:
  "is_valid_result reading_b
   \<and> pending_key (snd (handle_result init_window reading_a)) \<noteq> Some (key reading_b)
   \<and> pending_count (snd (handle_result (snd (handle_result init_window reading_a)) reading_b)) = 1
   \<and> bad_streak (snd (handle_result (snd (handle_result init_window reading_a)) reading_b))
       = bad_streak (snd (handle_result init_window reading_a))
   \<and> \<not> is_valid_result reading_bad
   \<and> pending_count (snd (handle_result init_window reading_bad)) = 0
   \<and> pending_key (snd (handle_result init_window reading_bad)) = None
   \<and> bad_streak (snd (handle_result init_window reading_bad)) = 1"
  using pending_and_bad_streak [of "snd (handle_result init_window reading_a)" reading_b]
    pending_and_bad_streak [of init_window reading_bad]
    pending_and_bad_streak [of init_window reading_a]
  by (simp add: sample_simps init_window_def handle_result_stability stability_step_fields)

text \<open>C4 as stated fails: a valid reading with a new key does not increment \<open>bad_streak\<close>.\<close>

theorem mismatch_keeps_bad_streak_counterexample:
  "is_valid_result reading_b
   \<and> pending_key (run init_window [Reading reading_bad, Reading reading_a]) = Some (key reading_a)
   \<and> key reading_b \<noteq> key reading_a
   \<and> bad_streak (run init_window [Reading reading_bad, Reading reading_a]) = 1
   \<and> bad_streak (run init_window [Reading reading_bad, Reading reading_a, Reading reading_b]) = 1"
  by (simp add: run_def handle_result_stability stability_step_fields sample_simps
      init_window_def)

subsection \<open>The pending key is set iff the pending count is not zero\<close>

text \<open>
  C10. In every state reached from the start-up window by any sequence of handler calls
  (readings, errors, region picks and selections, lock, side-swap and mode changes),
  \<open>pending_key\<close> is \<open>None\<close> iff \<open>pending_count\<close> is 0; and processing a valid reading
  in such a state leaves \<open>pending_key\<close> equal to the reading's key with
  \<open>pending_count\<close> at least 1.
\<close>

theorem pending_key_count_invariant:
  "(pending_key (run (loaded_window a b c sw m) es) = None
      \<longleftrightarrow> pending_count (run (loaded_window a b c sw m) es) = 0)
   \<and> (is_valid_result r \<longrightarrow>
        pending_key (snd (handle_result (run (loaded_window a b c sw m) es) r)) = Some (key r)
        \<and> 1 \<le> pending_count (snd (handle_result (run (loaded_window a b c sw m) es) r)))"
  using pending_inv_run [OF pending_inv_loaded, of a b c sw m es]
  by (simp add: pending_inv_def handle_result_stability stability_step_fields)

text \<open>The invariant after a reading, a side swap and an invalid reading.\<close>

theorem pending_key_count_invariant_witness:
  "is_valid_result reading_a
   \<and> pending_key (run (loaded_window None None None False ''auto'')
        [Reading reading_a, ToggleSwap True, Reading reading_bad]) = None
   \<and> pending_count (run (loaded_window None None None False ''auto'')
        [Reading reading_a, ToggleSwap True, Reading reading_bad]) = 0
   \<and> pending_key (snd (handle_result (run (loaded_window None None None False ''auto'')
        [Reading reading_a, ToggleSwap True, Reading reading_bad]) reading_a)) = Some (key reading_a)
   \<and> 1 \<le> pending_count (snd (handle_result (run (loaded_window None None None False ''auto'')
        [Reading reading_a, ToggleSwap True, Reading reading_bad]) reading_a))"
  using pending_key_count_invariant [of None None None False "''auto''"
      "[Reading reading_a, ToggleSwap True, Reading reading_bad]" reading_a]
  by (simp add: sample_simps run_def handle_result_stability stability_step_fields)

subsection \<open>Expected values\<close>

lemma expected_side_returns:
  assumes a: "\<bar>a\<bar> \<le> 10 ^ 6" and b: "fl (1 / 10 ^ 9) \<le> \<bar>b\<bar>" and v: "\<bar>v\<bar> \<le> 10 ^ 8"
  shows "expected_side v a b = Inr (py_round (fl (fl (of_int v) * fl (a / b))))"
proof -
  from b eps9_bounds(1) have b9: "1 / 10 ^ 9 \<le> \<bar>b\<bar>" by linarith
  then have bpos: "0 < \<bar>b\<bar>" by (smt (verit) divide_pos_pos zero_less_power)
  have "\<bar>a / b\<bar> = \<bar>a\<bar> / \<bar>b\<bar>" by simp
  also have "\<dots> \<le> 10 ^ 6 / \<bar>b\<bar>"
    using a bpos by (intro divide_right_mono) simp_all
  also have "\<dots> \<le> 10 ^ 6 / (1 / 10 ^ 9)"
    using b9 by (intro divide_left_mono) simp_all
  finally have q0: "\<bar>a / b\<bar> \<le> 10 ^ 15" by simp
  have q: "\<bar>fl (a / b)\<bar> \<le> 10 ^ 16"
    using fl_bound [of "a / b"] q0 by simp
  have "\<bar>real_of_int v\<bar> \<le> 10 ^ 8"
    using v by (metis of_int_abs of_int_le_iff of_int_numeral of_int_power)
  then have vf: "\<bar>fl (of_int v)\<bar> \<le> 10 ^ 9"
    using fl_bound [of "of_int v"] by simp
  have "\<bar>fl (of_int v) * fl (a / b)\<bar> = \<bar>fl (of_int v)\<bar> * \<bar>fl (a / b)\<bar>"
    by (rule abs_mult)
  also have "\<dots> \<le> 10 ^ 9 * 10 ^ 16"
    using vf q by (intro mult_mono) simp_all
  finally have p0: "\<bar>fl (of_int v) * fl (a / b)\<bar> \<le> 10 ^ 25" by simp
  have p: "\<bar>fl (fl (of_int v) * fl (a / b))\<bar> \<le> 10 ^ 26"
    using fl_bound [of "fl (of_int v) * fl (a / b)"] p0 by simp
  have big: "(10::real) ^ 26 < 2 ^ 1024" by simp
  have "\<not> float_overflow (fl (of_int v))" "\<not> float_overflow (fl (a / b))"
    "\<not> float_overflow (fl (fl (of_int v) * fl (a / b)))"
    unfolding float_overflow_iff using vf q p big by simp_all
  then show ?thesis
    by (simp add: expected_side_def Let_def)
qed

lemma compute_expected_usable:
  assumes "has_ratio res" and "ratio_num res = Some n" and "ratio_den res = Some d"
    and "fl (1 / 10 ^ 9) \<le> \<bar>n\<bar>"
  shows "compute_expected l r res =
     (case (case r of None \<Rightarrow> Inr None | Some v \<Rightarrow> map_sum id Some (expected_side v n d)) of
        Inl e \<Rightarrow> Inl e
      | Inr el \<Rightarrow>
          (case (case l of None \<Rightarrow> Inr None | Some v \<Rightarrow> map_sum id Some (expected_side v d n)) of
             Inl e \<Rightarrow> Inl e
           | Inr er \<Rightarrow> Inr (el, er)))"
  using assms by (simp add: compute_expected_def Let_def)

lemma expected_side_value:
  "expected_side v a b = Inr k \<Longrightarrow> k = py_round (fl (fl (of_int v) * fl (a / b)))"
  by (auto simp: expected_side_def Let_def split: if_splits)

lemma sample_expected:
  "expected_side 100 3 7 = Inr 43"
  "expected_side 50 7 3 = Inr 117"
  "expected_side 11 15 22 = Inr 7"
  "expected_side 15 25 6 = Inr 63"
  "expected_side 100 0 7 = Inr 0"
  by code_simp+

lemma sample_rounds:
  "py_round (fl (fl 100 * fl (3 / 7))) = 43"
  "py_round (fl (fl 50 * fl (7 / 3))) = 117"
  "py_round (fl (fl 11 * fl (15 / 22))) = 7"
  "py_round (fl (fl 15 * fl (25 / 6))) = 63"
  by code_simp+

lemma sample_has_ratio:
  "has_ratio reading_a" "has_ratio reading_15_22" "has_ratio reading_6_25"
  "has_ratio reading_zero" "\<not> has_ratio reading_bad"
  "\<not> has_ratio (reading_a\<lparr>ratio_den := Some 0\<rparr>)"
  using eps9_bounds
  by (simp_all add: has_ratio_def reading_a_def reading_15_22_def reading_6_25_def
      reading_zero_def reading_bad_def)

lemma sample_ratios:
  "ratio_num reading_a = Some 3" "ratio_den reading_a = Some 7"
  "ratio_num reading_15_22 = Some 15" "ratio_den reading_15_22 = Some 22"
  "ratio_num reading_6_25 = Some 6" "ratio_den reading_6_25 = Some 25"
  "ratio_num reading_zero = Some 0" "ratio_den reading_zero = Some 7"
  "left_value reading_zero = None" "right_value reading_zero = Some 100"
  by (simp_all add: reading_a_def reading_15_22_def reading_6_25_def reading_zero_def)

text \<open>
  C5 (as amended). When the ratio is usable and the numerator is at least \<open>1e-9\<close> in
  magnitude, the expected left value is \<open>round(right * (num / den))\<close> whenever the right
  value is present and the expected right value is \<open>round(left * (den / num))\<close> whenever
  the left value is present (and \<open>None\<close> for an absent input), both in float
  arithmetic: the quotient and the product are each rounded to the nearest double
  before \<open>round\<close> takes the nearest integer, ties to even. This is what the function
  returns whenever it returns, and it does return for ratio sides up to \<open>10^6\<close> and box
  values up to \<open>10^8\<close> in magnitude, which covers all that the recognizer reads. Both
  values are \<open>None\<close> when the ratio is unusable or the numerator is below \<open>1e-9\<close> in
  magnitude. With right = 100 and ratio 3 : 7 the expected left value is 43; a
  missing denominator or one within \<open>1e-9\<close> of 0 gives no ratio and no expected values.
\<close>

theorem expected_values:
  "(has_ratio res \<and> ratio_num res = Some n \<and> ratio_den res = Some d \<and> fl (1 / 10 ^ 9) \<le> \<bar>n\<bar> \<longrightarrow>
      (compute_expected l r res = Inr (el, er) \<longrightarrow>
         el = map_option (\<lambda>v. py_round (fl (fl (of_int v) * fl (n / d)))) r
         \<and> er = map_option (\<lambda>v. py_round (fl (fl (of_int v) * fl (d / n)))) l)
      \<and> (\<bar>n\<bar> \<le> 10 ^ 6 \<and> \<bar>d\<bar> \<le> 10 ^ 6
           \<and> (\<forall>v. r = Some v \<longrightarrow> \<bar>v\<bar> \<le> 10 ^ 8) \<and> (\<forall>v. l = Some v \<longrightarrow> \<bar>v\<bar> \<le> 10 ^ 8) \<longrightarrow>
         compute_expected l r res =
           Inr (map_option (\<lambda>v. py_round (fl (fl (of_int v) * fl (n / d)))) r,
                map_option (\<lambda>v. py_round (fl (fl (of_int v) * fl (d / n)))) l)))
   \<and> (\<not> has_ratio res \<or> ratio_num res = None
        \<or> (\<exists>n. ratio_num res = Some n \<and> \<bar>n\<bar> < fl (1 / 10 ^ 9)) \<longrightarrow>
      compute_expected l r res = Inr (None, None))
   \<and> (ratio_num res = Some 3 \<and> ratio_den res = Some 7 \<longrightarrow>
      compute_expected None (Some 100) res = Inr (Some 43, None))
   \<and> (ratio_den res = None \<or> (\<exists>d. ratio_den res = Some d \<and> \<bar>d\<bar> \<le> fl (1 / 10 ^ 9)) \<longrightarrow>
      \<not> has_ratio res \<and> compute_expected l r res = Inr (None, None))"
proof (intro conjI impI)
  assume u: "has_ratio res \<and> ratio_num res = Some n \<and> ratio_den res = Some d
    \<and> fl (1 / 10 ^ 9) \<le> \<bar>n\<bar>"
  then have ce: "compute_expected l r res =
     (case (case r of None \<Rightarrow> Inr None | Some v \<Rightarrow> map_sum id Some (expected_side v n d)) of
        Inl e \<Rightarrow> Inl e
      | Inr el \<Rightarrow>
          (case (case l of None \<Rightarrow> Inr None | Some v \<Rightarrow> map_sum id Some (expected_side v d n)) of
             Inl e \<Rightarrow> Inl e
           | Inr er \<Rightarrow> Inr (el, er)))"
    by (intro compute_expected_usable) simp_all
  {
    assume "compute_expected l r res = Inr (el, er)"
    then show "el = map_option (\<lambda>v. py_round (fl (fl (of_int v) * fl (n / d)))) r"
      and "er = map_option (\<lambda>v. py_round (fl (fl (of_int v) * fl (d / n)))) l"
      unfolding ce
      by (auto split: option.splits sum.splits dest: expected_side_value 
          simp: map_sum_def)
  }
  {
    assume bnd: "\<bar>n\<bar> \<le> 10 ^ 6 \<and> \<bar>d\<bar> \<le> 10 ^ 6
           \<and> (\<forall>v. r = Some v \<longrightarrow> \<bar>v\<bar> \<le> 10 ^ 8) \<and> (\<forall>v. l = Some v \<longrightarrow> \<bar>v\<bar> \<le> 10 ^ 8)"
    from u have d: "fl (1 / 10 ^ 9) \<le> \<bar>d\<bar>"
      by (auto simp: has_ratio_def)
    have left: "expected_side v n d = Inr (py_round (fl (fl (of_int v) * fl (n / d))))"
      if "r = Some v" for v
      using that bnd d by (intro expected_side_returns) simp_all
    have right: "expected_side v d n = Inr (py_round (fl (fl (of_int v) * fl (d / n))))"
      if "l = Some v" for v
      using that bnd u by (intro expected_side_returns) simp_all
    show "compute_expected l r res =
           Inr (map_option (\<lambda>v. py_round (fl (fl (of_int v) * fl (n / d)))) r,
                map_option (\<lambda>v. py_round (fl (fl (of_int v) * fl (d / n)))) l)"
      unfolding ce using left right
      by (cases r; cases l) simp_all
  }
next
  assume "\<not> has_ratio res \<or> ratio_num res = None
        \<or> (\<exists>n. ratio_num res = Some n \<and> \<bar>n\<bar> < fl (1 / 10 ^ 9))"
  then show "compute_expected l r res = Inr (None, None)"
    by (auto simp: compute_expected_def)
next
  assume s: "ratio_num res = Some 3 \<and> ratio_den res = Some 7"
  then have "has_ratio res" "\<not> \<bar>the (ratio_num res)\<bar> < fl (1 / 10 ^ 9)"
    using eps9_bounds(2) by (simp_all add: has_ratio_def)
  with s show "compute_expected None (Some 100) res = Inr (Some 43, None)"
    by (simp add: compute_expected_def Let_def sample_expected)
next
  assume a: "ratio_den res = None \<or> (\<exists>d. ratio_den res = Some d \<and> \<bar>d\<bar> \<le> fl (1 / 10 ^ 9))"
  then show "\<not> has_ratio res"
    by (auto simp: has_ratio_def split: option.splits)
  then show "compute_expected l r res = Inr (None, None)"
    by (simp add: compute_expected_def)
qed

text \<open>
  The formula at the ratios 3 : 7, 15 : 22 and 6 : 25 (in exact arithmetic the last two
  products would be the ties 7.5 and 62.5), and the four ways to get no expected
  values.
\<close>

theorem expected_values_witness:
  "has_ratio reading_a \<and> ratio_num reading_a = Some 3 \<and> ratio_den reading_a = Some 7
   \<and> fl (1 / 10 ^ 9) \<le> \<bar>3::real\<bar>
   \<and> compute_expected (Some 50) (Some 100) reading_a = Inr (Some 43, Some 117)
   \<and> has_ratio reading_15_22
   \<and> compute_expected None (Some 11) reading_15_22 = Inr (Some 7, None)
   \<and> has_ratio reading_6_25
   \<and> compute_expected (Some 15) None reading_6_25 = Inr (None, Some 63)
   \<and> \<not> has_ratio reading_bad
   \<and> compute_expected (Some 50) (Some 100) reading_bad = Inr (None, None)
   \<and> compute_expected (Some 50) (Some 100) reading_zero = Inr (None, None)
   \<and> compute_expected (Some 50) (Some 100) (reading_a\<lparr>ratio_den := Some 0\<rparr>) = Inr (None, None)"
proof -
  have a: "compute_expected (Some 50) (Some 100) reading_a = Inr (Some 43, Some 117)"
  proof -
    have "compute_expected (Some 50) (Some 100) reading_a =
           Inr (map_option (\<lambda>v. py_round (fl (fl (of_int v) * fl (3 / 7)))) (Some 100),
                map_option (\<lambda>v. py_round (fl (fl (of_int v) * fl (7 / 3)))) (Some 50))"
      using expected_values [of reading_a 3 7 "Some 50" "Some 100" None None,
          THEN conjunct1, rule_format, THEN conjunct2, rule_format] eps9_bounds(2)
      by (simp add: sample_has_ratio sample_ratios)
    then show ?thesis by (simp add: sample_rounds)
  qed
  have b: "compute_expected None (Some 11) reading_15_22 = Inr (Some 7, None)"
  proof -
    have "compute_expected None (Some 11) reading_15_22 =
           Inr (map_option (\<lambda>v. py_round (fl (fl (of_int v) * fl (15 / 22)))) (Some 11),
                map_option (\<lambda>v. py_round (fl (fl (of_int v) * fl (22 / 15)))) None)"
      using expected_values [of reading_15_22 15 22 None "Some 11" None None,
          THEN conjunct1, rule_format, THEN conjunct2, rule_format] eps9_bounds(2)
      by (simp add: sample_has_ratio sample_ratios)
    then show ?thesis by (simp add: sample_rounds)
  qed
  have c: "compute_expected (Some 15) None reading_6_25 = Inr (None, Some 63)"
  proof -
    have "compute_expected (Some 15) None reading_6_25 =
           Inr (map_option (\<lambda>v. py_round (fl (fl (of_int v) * fl (6 / 25)))) None,
                map_option (\<lambda>v. py_round (fl (fl (of_int v) * fl (25 / 6)))) (Some 15))"
      using expected_values [of reading_6_25 6 25 "Some 15" None None None,
          THEN conjunct1, rule_format, THEN conjunct2, rule_format] eps9_bounds(2)
      by (simp add: sample_has_ratio sample_ratios)
    then show ?thesis by (simp add: sample_rounds)
  qed
  have d: "compute_expected (Some 50) (Some 100) reading_bad = Inr (None, None)"
    using expected_values [of reading_bad 3 7 "Some 50" "Some 100" None None,
        THEN conjunct2, THEN conjunct1, rule_format]
    by (simp add: sample_has_ratio)
  have e: "compute_expected (Some 50) (Some 100) reading_zero = Inr (None, None)"
    using expected_values [of reading_zero 3 7 "Some 50" "Some 100" None None,
        THEN conjunct2, THEN conjunct1, rule_format] eps9_bounds(1)
    by (simp add: sample_ratios)
  have f: "compute_expected (Some 50) (Some 100) (reading_a\<lparr>ratio_den := Some 0\<rparr>)
             = Inr (None, None)"
    using expected_values [of "reading_a\<lparr>ratio_den := Some 0\<rparr>" 3 7 "Some 50" "Some 100"
          None None, THEN conjunct2, THEN conjunct2, THEN conjunct2, rule_format]
      eps9_bounds(1)
    by simp
  from a b c d e f eps9_bounds(2) show ?thesis
    by (simp add: sample_has_ratio sample_ratios)
qed

text \<open>
  C5 as stated fails at numerator 0: the ratio is usable and the right value present,
  \<open>round(100 * (0 / 7))\<close> is 0, but no expected left value is returned.
\<close>

theorem zero_numerator_counterexample:
  "has_ratio reading_zero \<and> ratio_num reading_zero = Some 0 \<and> ratio_den reading_zero = Some 7
   \<and> right_value reading_zero = Some 100
   \<and> expected_side 100 0 7 = Inr 0
   \<and> compute_expected (left_value reading_zero) (right_value reading_zero) reading_zero
       = Inr (None, None)"
proof -
  have "compute_expected None (Some 100) reading_zero = Inr (None, None)"
    using eps9_bounds(1) by (simp add: compute_expected_def sample_ratios)
  then show ?thesis
    by (simp add: sample_has_ratio sample_ratios sample_expected)
qed

subsection \<open>Ratio scoring\<close>








subsection \<open>Counting loops and densities\<close>

lemma count_row_eq: "count_row b xs c y = c + length (filter (\<lambda>x. 0 < pixel b x y) xs)"
  unfolding count_row_def by (induction xs arbitrary: c) auto

lemma foldl_count_row:
  "foldl (count_row b xs) c ys =
     c + sum_list (map (\<lambda>y. length (filter (\<lambda>x. 0 < pixel b x y) xs)) ys)"
  by (induction ys arbitrary: c) (auto simp: count_row_eq)

lemma card_row:
  assumes "distinct xs"
  shows "card {(x, y'). x \<in> set xs \<and> y' = y \<and> 0 < pixel b x y'}
           = length (filter (\<lambda>x. 0 < pixel b x y) xs)"
proof -
  let ?fs = "filter (\<lambda>x. 0 < pixel b x y) xs"
  have "{(x, y'). x \<in> set xs \<and> y' = y \<and> 0 < pixel b x y'} = (\<lambda>x. (x, y)) ` set ?fs"
    by auto
  moreover have "inj_on (\<lambda>x. (x, y)) (set ?fs)"
    by (simp add: inj_on_def)
  moreover have "card (set ?fs) = length ?fs"
    using assms by (intro distinct_card distinct_filter)
  ultimately show ?thesis
    by (simp only: card_image)
qed

lemma count_loop_card:
  assumes "distinct xs" and "distinct ys"
  shows "count_loop b ys xs = card {(x, y). x \<in> set xs \<and> y \<in> set ys \<and> 0 < pixel b x y}"
  using assms(2)
proof (induction ys)
  case Nil
  then show ?case by (simp add: count_loop_def)
next
  case (Cons y ys)
  let ?A = "{(x, y'). x \<in> set xs \<and> y' = y \<and> 0 < pixel b x y'}"
  let ?B = "{(x, y'). x \<in> set xs \<and> y' \<in> set ys \<and> 0 < pixel b x y'}"
  have split: "{(x, y'). x \<in> set xs \<and> y' \<in> set (y # ys) \<and> 0 < pixel b x y'} = ?A \<union> ?B"
    by auto
  have disj: "?A \<inter> ?B = {}"
    using Cons.prems by auto
  have fin: "finite ?A" "finite ?B"
    by (rule finite_subset [of _ "set xs \<times> set (y # ys)"]; auto)+
  have "count_loop b (y # ys) xs
          = length (filter (\<lambda>x. 0 < pixel b x y) xs) + count_loop b ys xs"
    by (simp add: count_loop_def foldl_count_row count_row_eq)
  also have "\<dots> = card ?A + card ?B"
    using Cons card_row [OF assms(1)] by simp
  also have "\<dots> = card (?A \<union> ?B)"
    using card_Un_disjoint [OF fin disj] by simp
  finally show ?case
    by (simp only: split)
qed

lemma fg_density_loop:
  "fg_density b {x0..<x1} {y0..<y1}
     = real (count_loop b [y0..<y1] [x0..<x1]) / real ((x1 - x0) * (y1 - y0))"
  using count_loop_card [of "[x0..<x1]" "[y0..<y1]" b]
  by (simp add: fg_density_def)

lemma binarize_size:
  "img_width (binarize_for_ratio img) = img_width img"
  "img_height (binarize_for_ratio img) = img_height img"
  by (simp_all add: binarize_for_ratio_def Let_def)

subsection \<open>The scan for the emptiest column\<close>

lemma gap_scan_Some_ne: "gap_scan counts xs (Some best) \<noteq> None"
  by (induction xs arbitrary: best) (auto simp: Let_def split: prod.splits)

lemma gap_scan_Some:
  assumes "gap_scan counts xs (Some (mc, mi)) = Some (m, i)"
  shows "(m = mc \<and> i = mi \<and> (\<forall>x\<in>set xs. mc \<le> counts ! x))
       \<or> (\<exists>pre post. xs = pre @ i # post \<and> m = counts ! i \<and> m < mc
            \<and> (\<forall>x\<in>set pre. m < counts ! x) \<and> (\<forall>x\<in>set post. m \<le> counts ! x))"
  using assms
proof (induction xs arbitrary: mc mi)
  case Nil
  then show ?case by simp
next
  case (Cons x xs)
  show ?case
  proof (cases "counts ! x < mc")
    case True
    with Cons.prems have "gap_scan counts xs (Some (counts ! x, x)) = Some (m, i)"
      by (simp add: Let_def)
    from Cons.IH [OF this] show ?thesis
    proof
      assume "m = counts ! x \<and> i = x \<and> (\<forall>y\<in>set xs. counts ! x \<le> counts ! y)"
      with True have "x # xs = [] @ i # xs \<and> m = counts ! i \<and> m < mc
            \<and> (\<forall>y\<in>set []. m < counts ! y) \<and> (\<forall>y\<in>set xs. m \<le> counts ! y)"
        by simp
      then show ?thesis by blast
    next
      assume "\<exists>pre post. xs = pre @ i # post \<and> m = counts ! i \<and> m < counts ! x
            \<and> (\<forall>y\<in>set pre. m < counts ! y) \<and> (\<forall>y\<in>set post. m \<le> counts ! y)"
      then obtain pre post where p: "xs = pre @ i # post" "m = counts ! i" "m < counts ! x"
        "\<forall>y\<in>set pre. m < counts ! y" "\<forall>y\<in>set post. m \<le> counts ! y"
        by blast
      with True have "x # xs = (x # pre) @ i # post \<and> m = counts ! i \<and> m < mc
            \<and> (\<forall>y\<in>set (x # pre). m < counts ! y) \<and> (\<forall>y\<in>set post. m \<le> counts ! y)"
        by simp
      then show ?thesis by blast
    qed
  next
    case False
    with Cons.prems have "gap_scan counts xs (Some (mc, mi)) = Some (m, i)"
      by (simp add: Let_def)
    from Cons.IH [OF this] show ?thesis
    proof
      assume "m = mc \<and> i = mi \<and> (\<forall>y\<in>set xs. mc \<le> counts ! y)"
      with False show ?thesis by simp
    next
      assume "\<exists>pre post. xs = pre @ i # post \<and> m = counts ! i \<and> m < mc
            \<and> (\<forall>y\<in>set pre. m < counts ! y) \<and> (\<forall>y\<in>set post. m \<le> counts ! y)"
      then obtain pre post where p: "xs = pre @ i # post" "m = counts ! i" "m < mc"
        "\<forall>y\<in>set pre. m < counts ! y" "\<forall>y\<in>set post. m \<le> counts ! y"
        by blast
      with False have "x # xs = (x # pre) @ i # post \<and> m = counts ! i \<and> m < mc
            \<and> (\<forall>y\<in>set (x # pre). m < counts ! y) \<and> (\<forall>y\<in>set post. m \<le> counts ! y)"
        by simp
      then show ?thesis by blast
    qed
  qed
qed

lemma gap_scan_None_start:
  assumes "xs \<noteq> []"
  shows "\<exists>m i pre post. gap_scan counts xs None = Some (m, i) \<and> xs = pre @ i # post
           \<and> m = counts ! i \<and> (\<forall>x\<in>set pre. m < counts ! x) \<and> (\<forall>x\<in>set post. m \<le> counts ! x)"
proof -
  from assms obtain x rest where xs: "xs = x # rest"
    by (cases xs) auto
  then have start: "gap_scan counts xs None = gap_scan counts rest (Some (counts ! x, x))"
    by (simp add: Let_def)
  obtain m i where res: "gap_scan counts rest (Some (counts ! x, x)) = Some (m, i)"
    using gap_scan_Some_ne [of counts rest "(counts ! x, x)"] by (cases "gap_scan counts rest (Some (counts ! x, x))") auto
  from gap_scan_Some [OF res] show ?thesis
  proof
    assume "m = counts ! x \<and> i = x \<and> (\<forall>y\<in>set rest. counts ! x \<le> counts ! y)"
    with xs start res have "gap_scan counts xs None = Some (m, i) \<and> xs = [] @ i # rest
           \<and> m = counts ! i \<and> (\<forall>y\<in>set []. m < counts ! y) \<and> (\<forall>y\<in>set rest. m \<le> counts ! y)"
      by simp
    then show ?thesis by blast
  next
    assume "\<exists>pre post. rest = pre @ i # post \<and> m = counts ! i \<and> m < counts ! x
            \<and> (\<forall>y\<in>set pre. m < counts ! y) \<and> (\<forall>y\<in>set post. m \<le> counts ! y)"
    then obtain pre post where p: "rest = pre @ i # post" "m = counts ! i" "m < counts ! x"
        "\<forall>y\<in>set pre. m < counts ! y" "\<forall>y\<in>set post. m \<le> counts ! y"
      by blast
    with xs start res have "gap_scan counts xs None = Some (m, i) \<and> xs = (x # pre) @ i # post
           \<and> m = counts ! i \<and> (\<forall>y\<in>set (x # pre). m < counts ! y) \<and> (\<forall>y\<in>set post. m \<le> counts ! y)"
      by simp
    then show ?thesis by blast
  qed
qed

lemma upt_split:
  assumes "[a..<b] = pre @ i # post"
  shows "a \<le> i \<and> i < b \<and> set pre = {a..<i} \<and> set post = {Suc i..<b}"
proof -
  let ?k = "length pre"
  have len: "?k < length [a..<b]"
    using assms by simp
  then have kb: "a + ?k < b" by simp
  have "i = [a..<b] ! ?k"
    using assms by simp
  with kb have i: "i = a + ?k" by simp
  have "pre = take ?k [a..<b]"
    using assms by simp
  with kb have pre: "pre = [a..<a + ?k]" by simp
  have "post = drop (Suc ?k) [a..<b]"
    using assms by simp
  then have post: "post = [a + Suc ?k..<b]" by simp
  from i kb pre post show ?thesis
    by (metis add_Suc_right atLeastLessThan_upt le_add1)
qed

lemma gap_scan_upt:
  assumes "a < b"
  shows "\<exists>m i. gap_scan counts [a..<b] None = Some (m, i) \<and> a \<le> i \<and> i < b \<and> m = counts ! i
           \<and> (\<forall>x. a \<le> x \<and> x < i \<longrightarrow> m < counts ! x)
           \<and> (\<forall>x. a \<le> x \<and> x < b \<longrightarrow> m \<le> counts ! x)"
proof -
  from assms have "[a..<b] \<noteq> []" by simp
  from gap_scan_None_start [OF this, of counts]
  obtain m i pre post where r: "gap_scan counts [a..<b] None = Some (m, i)"
    "[a..<b] = pre @ i # post" "m = counts ! i"
    "\<forall>x\<in>set pre. m < counts ! x" "\<forall>x\<in>set post. m \<le> counts ! x"
    by blast
  from upt_split [OF r(2)] have s: "a \<le> i" "i < b" "set pre = {a..<i}" "set post = {Suc i..<b}"
    by simp_all
  have "\<forall>x. a \<le> x \<and> x < i \<longrightarrow> m < counts ! x"
    using r(4) s(3) by simp
  moreover have "\<forall>x. a \<le> x \<and> x < b \<longrightarrow> m \<le> counts ! x"
  proof (intro allI impI)
    fix x assume x: "a \<le> x \<and> x < b"
    consider "x < i" | "x = i" | "Suc i \<le> x" by linarith
    then show "m \<le> counts ! x"
    proof cases
      case 1 with x r(4) s(3) show ?thesis by (simp add: less_imp_le)
    next
      case 2 with r(3) show ?thesis by simp
    next
      case 3 with x r(5) s(4) show ?thesis by simp
    qed
  qed
  ultimately show ?thesis
    using r(1,3) s(1,2) by blast
qed

lemma count_loop_column:
  "count_loop b [0..<h] [x] = card {y. y < h \<and> 0 < pixel b x y}"
proof -
  have "count_loop b [0..<h] [x] = length (filter (\<lambda>y. 0 < pixel b x y) [0..<h])"
    unfolding count_loop_def foldl_count_row
    by (induction h) simp_all
  also have "\<dots> = card (set (filter (\<lambda>y. 0 < pixel b x y) [0..<h]))"
    by (rule distinct_card [symmetric]) simp
  also have "set (filter (\<lambda>y. 0 < pixel b x y) [0..<h]) = {y. y < h \<and> 0 < pixel b x y}"
    by auto
  finally show ?thesis .
qed

lemma middle_range: "6 \<le> (w::nat) \<Longrightarrow> w div 4 < 3 * w div 4 \<and> 3 * w div 4 \<le> w \<and> 1 \<le> w div 4"
  by linarith

subsection \<open>Sample images\<close>

lemma binarize_wf: "wf_image img \<Longrightarrow> wf_image (binarize_for_ratio img)"
  by (auto simp: wf_image_def binarize_for_ratio_def Let_def list_all_iff)

lemma sample_images_wf:
  "wf_image image_8x10" "wf_image crop_1x20" "wf_image crop_18x4" "wf_image crop_5x2"
  "wf_image crop_8x10"
  by (simp_all add: wf_image_def image_8x10_def crop_1x20_def crop_18x4_def crop_5x2_def
      crop_8x10_def list_all_iff)

lemma crop_5x2_counts:
  "count_loop (binarize_for_ratio crop_5x2) [0..<1] [0..<5] = 3"
  "count_loop (binarize_for_ratio crop_5x2) [0..<2] [1..<4] = 3"
  by code_simp+

lemma sample_sizes:
  "img_width crop_5x2 = 5" "img_height crop_5x2 = 2"
  "img_width crop_8x10 = 8" "img_height crop_8x10 = 10"
  "img_width crop_1x20 = 1" "img_height crop_1x20 = 20"
  "img_width crop_18x4 = 18" "img_height crop_18x4 = 4"
  "img_width image_8x10 = 8" "img_height image_8x10 = 10"
  by (simp_all add: crop_5x2_def crop_8x10_def crop_1x20_def crop_18x4_def image_8x10_def)

lemma crop_5x2_density:
  "fg_density (binarize_for_ratio crop_5x2) {0..<5} {0..<1} = 6 / 10"
  "fg_density (binarize_for_ratio crop_5x2) {1..<4} {0..<2} = 5 / 10"
  unfolding fg_density_loop crop_5x2_counts by simp_all

lemma crop_1x20_counts:
  "count_loop (binarize_for_ratio crop_1x20) [0..<5] [0..<1] = 3"
  "count_loop (binarize_for_ratio crop_1x20) [0..<20] [0..<1] = 10"
  by code_simp+

lemma crop_18x4_counts:
  "count_loop (binarize_for_ratio crop_18x4) [0..<1] [0..<18] = 3"
  "count_loop (binarize_for_ratio crop_18x4) [0..<4] [6..<12] = 12"
  "count_loop (binarize_for_ratio crop_18x4) [0..<4] [8..<11] = 12"
  "count_loop (binarize_for_ratio crop_18x4) [0..<2] [9..<18] = 10"
  by code_simp+

lemma crop_8x10_counts:
  "count_loop (binarize_for_ratio crop_8x10) [0..<2] [0..<8] = 6"
  "count_loop (binarize_for_ratio crop_8x10) [0..<10] [3..<6] = 27"
  "count_loop (binarize_for_ratio crop_8x10) [0..<5] [4..<8] = 14"
  by code_simp+

lemma sample_density:
  "fg_density (binarize_for_ratio crop_1x20) {0..<1} {0..<5} = 6 / 10"
  "fg_density (binarize_for_ratio crop_1x20) {0..<1} {0..<20} = 5 / 10"
  "fg_density (binarize_for_ratio crop_18x4) {0..<18} {0..<1} = 1 / 6"
  "fg_density (binarize_for_ratio crop_18x4) {6..<12} {0..<4} = 1 / 2"
  "fg_density (binarize_for_ratio crop_18x4) {8..<11} {0..<4} = 1"
  "fg_density (binarize_for_ratio crop_18x4) {9..<18} {0..<2} = 5 / 9"
  "fg_density (binarize_for_ratio crop_8x10) {0..<8} {0..<2} = 6 / 16"
  "fg_density (binarize_for_ratio crop_8x10) {3..<6} {0..<10} = 9 / 10"
  "fg_density (binarize_for_ratio crop_8x10) {4..<8} {0..<5} = 7 / 10"
  unfolding fg_density_loop crop_1x20_counts crop_18x4_counts crop_8x10_counts by simp_all

lemma sample_classify:
  "classify_digit_1_7 crop_1x20 = None"
  "classify_digit_1_7 crop_18x4 = Some ''1''"
  "classify_digit_1_7 crop_8x10 = Some ''1''"
  by code_simp+

lemma sample_decide_spec:
  "decide_1_7_spec (1 / 6) (1 / 2) (5 / 9) = None"
  "decide_1_7_spec (6 / 16) (9 / 10) (7 / 10) = None"
  by (simp_all add: decide_1_7_spec_def)

lemma float_sum_sample: "fl (fl (7 / 10) + fl (2 / 10)) < fl (9 / 10)"
  by code_simp

lemma float_thresholds: "fl (5 / 10) \<le> fl (6 / 10)" "fl (5 / 10) < fl (7 / 10)"
  by code_simp+

lemma image_8x10_counts:
  "count_loop (binarize_for_ratio image_8x10) [0..<10] [2] = 2"
  "count_loop (binarize_for_ratio image_8x10) [0..<10] [3] = 2"
  "count_loop (binarize_for_ratio image_8x10) [0..<10] [4] = 2"
  "count_loop (binarize_for_ratio image_8x10) [0..<10] [5] = 2"
  by code_simp+

lemma image_8x10_split: "split_ratio_by_gap image_8x10 \<noteq> None"
  by code_simp

lemma fifteen_percent: "(15 * 10 :: nat) < 2 * 100"
  by simp

subsection \<open>Gap split\<close>

text \<open>
  C8 (as amended). On every image at least 6 pixels wide and 4 high, the gap split
  looks only at the columns of the middle half of the binarized image, from
  \<open>width div 4\<close> up to \<open>3 * width div 4\<close>, takes the first of them with the fewest
  foreground pixels, and returns no split exactly when that minimum exceeds
  \<open>max 2 (3 * height div 20)\<close>, the larger of 2 and 15 percent of the height rounded
  down, or when the column found is column 1; otherwise it splits the image at that
  column. Smaller images are never split.
\<close>

theorem gap_split_middle_half:
  "split_ratio_by_gap img =
     (let b = binarize_for_ratio img; w = img_width img; h = img_height img;
          m = Min ((\<lambda>x. card {y. y < h \<and> 0 < pixel b x y}) ` {w div 4..<3 * w div 4});
          idx = (LEAST x. w div 4 \<le> x \<and> x < 3 * w div 4
                   \<and> card {y. y < h \<and> 0 < pixel b x y} = m)
      in if w < 6 \<or> h < 4 then None
         else if max 2 (3 * h div 20) < m then None
         else if idx < 2 then None
         else Some (crop_columns img 0 idx, crop_columns img (idx + 1) w))"
proof (cases "img_width img < 6 \<or> img_height img < 4")
  case True
  then show ?thesis
    by (auto simp: split_ratio_by_gap_def binarize_size Let_def)
next
  case False
  define b where "b = binarize_for_ratio img"
  define w where "w = img_width img"
  define h where "h = img_height img"
  define col where "col = (\<lambda>x. card {y. y < h \<and> 0 < pixel b x y})"
  define counts where "counts = map (\<lambda>x. count_loop b [0..<h] [x]) [0..<w]"
  from False have w6: "6 \<le> w" and h4: "4 \<le> h"
    by (simp_all add: w_def h_def)
  from middle_range [OF w6] have rng: "w div 4 < 3 * w div 4" "3 * w div 4 \<le> w" "1 \<le> w div 4"
    by simp_all
  have cnt: "counts ! x = col x" if "x < w" for x
    using that by (simp add: counts_def col_def count_loop_column)
  from gap_scan_upt [OF rng(1), of counts]
  obtain m i where r: "gap_scan counts [w div 4..<3 * w div 4] None = Some (m, i)"
    "w div 4 \<le> i" "i < 3 * w div 4" "m = counts ! i"
    "\<forall>x. w div 4 \<le> x \<and> x < i \<longrightarrow> m < counts ! x"
    "\<forall>x. w div 4 \<le> x \<and> x < 3 * w div 4 \<longrightarrow> m \<le> counts ! x"
    by blast
  have mi: "m = col i"
    using r(3,4) rng(2) cnt by simp
  have first: "m < col x" if "w div 4 \<le> x" "x < i" for x
    using that r(3,5) rng(2) cnt [of x] by auto
  have least: "m \<le> col x" if "w div 4 \<le> x" "x < 3 * w div 4" for x
    using that r(6) rng(2) cnt [of x] by auto
  have Min_eq: "Min (col ` {w div 4..<3 * w div 4}) = m"
  proof (rule Min_eqI)
    show "finite (col ` {w div 4..<3 * w div 4})" by simp
    show "m \<le> y" if "y \<in> col ` {w div 4..<3 * w div 4}" for y
      using that least by auto
    show "m \<in> col ` {w div 4..<3 * w div 4}"
      using mi r(2,3) by auto
  qed
  have Least_eq: "(LEAST x. w div 4 \<le> x \<and> x < 3 * w div 4 \<and> col x = m) = i"
  proof (rule Least_equality)
    show "w div 4 \<le> i \<and> i < 3 * w div 4 \<and> col i = m"
      using r(2,3) mi by simp
    show "i \<le> y" if "w div 4 \<le> y \<and> y < 3 * w div 4 \<and> col y = m" for y
      using that first [of y] by (cases "y < i") auto
  qed
  have right_ok: "\<not> w - (i + 1) < 2"
    using r(3) w6 by linarith
  have bw: "img_width (binarize_for_ratio img) = w" "img_height (binarize_for_ratio img) = h"
    by (simp_all add: binarize_size w_def h_def)
  have scan: "gap_scan (map (\<lambda>x. count_loop (binarize_for_ratio img) [0..<h] [x]) [0..<w])
                [w div 4..<3 * w div 4] None = Some (m, i)"
    using r(1) by (simp add: counts_def b_def)
  have code: "split_ratio_by_gap img =
      (if max 2 (3 * h div 20) < m then None
       else if i < 2 then None
       else Some (crop_columns img 0 i, crop_columns img (i + 1) w))"
    unfolding split_ratio_by_gap_def Let_def bw scan
    using w6 h4 right_ok by (simp add: crop_columns_def)
  have "split_ratio_by_gap img =
     (let m' = Min (col ` {w div 4..<3 * w div 4});
          idx = (LEAST x. w div 4 \<le> x \<and> x < 3 * w div 4 \<and> col x = m')
      in if w < 6 \<or> h < 4 then None
         else if max 2 (3 * h div 20) < m' then None
         else if idx < 2 then None
         else Some (crop_columns img 0 idx, crop_columns img (idx + 1) w))"
    unfolding Let_def Min_eq Least_eq code
    using w6 h4 by simp
  then show ?thesis
    unfolding col_def b_def w_def h_def Let_def .
qed

text \<open>
  C8 as stated fails: in the 8 by 10 image every middle column holds 2 foreground
  pixels, more than 15 percent of the height 10, and the image is split all the same.
\<close>

theorem gap_split_two_pixels_counterexample:
  "img_width image_8x10 = 8 \<and> img_height image_8x10 = 10
   \<and> count_loop (binarize_for_ratio image_8x10) [0..<10] [2] = 2
   \<and> count_loop (binarize_for_ratio image_8x10) [0..<10] [3] = 2
   \<and> count_loop (binarize_for_ratio image_8x10) [0..<10] [4] = 2
   \<and> count_loop (binarize_for_ratio image_8x10) [0..<10] [5] = 2
   \<and> (15 * 10 :: nat) < 2 * 100
   \<and> split_ratio_by_gap image_8x10 \<noteq> None"
  by (intro conjI sample_sizes image_8x10_counts image_8x10_split fifteen_percent)

subsection \<open>The 1-versus-7 classifier\<close>

lemma classify_digit_1_7_densities:
  assumes "2 \<le> img_width img" and "2 \<le> img_height img"
  shows "classify_digit_1_7 img =
     decide_1_7
       (fl (fg_density (binarize_for_ratio img) {0..<img_width img}
          {0..<max 1 (img_height img div 4)}))
       (fl (fg_density (binarize_for_ratio img)
          {img_width img div 2 - 1..<min (img_width img) (img_width img div 2 - 1 + 3)}
          {0..<img_height img}))
       (fl (fg_density (binarize_for_ratio img) {img_width img div 2..<img_width img}
          {0..<img_height img div 2}))"
proof -
  define b where "b = binarize_for_ratio img"
  define w where "w = img_width img"
  define h where "h = img_height img"
  from assms have w2: "2 \<le> w" and h2: "2 \<le> h"
    by (simp_all add: w_def h_def)
  have size: "img_width b = w" "img_height b = h"
    by (simp_all add: b_def w_def h_def binarize_size)
  have big: "\<not> (w < 2 \<or> h < 2)"
    using w2 h2 by simp
  have band: "max 1 (min w (w div 2 - 1 + 3) - (w div 2 - 1)) = min w (w div 2 - 1 + 3) - (w div 2 - 1)"
    using w2 by (simp add: max_def min_def) linarith
  have quad: "max 1 ((w - w div 2) * (h div 2)) = (w - w div 2) * (h div 2)"
  proof -
    have "1 \<le> w - w div 2" "1 \<le> h div 2" using w2 h2 by linarith+
    then have "1 * 1 \<le> (w - w div 2) * (h div 2)" by (rule mult_le_mono)
    then show ?thesis by simp
  qed
  have top: "real (count_loop b [0..<max 1 (h div 4)] [0..<w]) / real (max 1 (h div 4) * w)
               = fg_density b {0..<w} {0..<max 1 (h div 4)}"
    unfolding fg_density_loop by (simp add: mult.commute)
  have vert: "real (count_loop b [0..<h] [w div 2 - 1..<min w (w div 2 - 1 + 3)])
                / real (h * max 1 (min w (w div 2 - 1 + 3) - (w div 2 - 1)))
               = fg_density b {w div 2 - 1..<min w (w div 2 - 1 + 3)} {0..<h}"
    unfolding fg_density_loop band by (simp add: mult.commute)
  have ur: "real (count_loop b [0..<h div 2] [w div 2..<w])
                / real (max 1 ((w - w div 2) * (h div 2)))
               = fg_density b {w div 2..<w} {0..<h div 2}"
    unfolding fg_density_loop quad by simp
  have "classify_digit_1_7 img =
     decide_1_7 (fl (fg_density b {0..<w} {0..<max 1 (h div 4)}))
       (fl (fg_density b {w div 2 - 1..<min w (w div 2 - 1 + 3)} {0..<h}))
       (fl (fg_density b {w div 2..<w} {0..<h div 2}))"
    unfolding classify_digit_1_7_def decide_1_7_def Let_def b_def [symmetric] size top vert ur
    by (simp only: big if_False)
  then show ?thesis
    unfolding b_def w_def h_def .
qed

lemma classify_digit_1_7_small:
  assumes "img_width img < 2 \<or> img_height img < 2"
  shows "classify_digit_1_7 img = None"
  using assms unfolding classify_digit_1_7_def Let_def binarize_size
  by (simp only: if_True)

text \<open>
  C7 (as amended). On every crop at least 2 pixels wide and 2 high the classifier takes
  three foreground densities of the binarized crop, each as a float: over the top
  \<open>max 1 (height div 4)\<close> rows, over the band of at most three columns that starts at
  column \<open>width div 2 - 1\<close>, and over the upper-right quadrant; and it decides in
  order, against the float literals: top at least 0.5 and band below 0.7 gives 7; top
  at most 0.35 and band at least 0.65 gives 1; upper-right above 0.35 and top above 0.4
  gives 7; band above the float sum of upper-right and 0.2 gives 1; otherwise
  inconclusive. A crop narrower or lower than 2 pixels is inconclusive. In particular
  a crop of at least 2 by 2 pixels with top density 0.6 and band density 0.5 is
  classified 7.
\<close>

theorem classify_digit_1_7_decision:
  "classify_digit_1_7 img =
     (let b = binarize_for_ratio img; w = img_width img; h = img_height img;
          top_density = fl (fg_density b {0..<w} {0..<max 1 (h div 4)});
          vert_density = fl (fg_density b {w div 2 - 1..<min w (w div 2 - 1 + 3)} {0..<h});
          upper_right_density = fl (fg_density b {w div 2..<w} {0..<h div 2})
      in if w < 2 \<or> h < 2 then None
         else if fl (5 / 10) \<le> top_density \<and> vert_density < fl (7 / 10) then Some ''7''
         else if top_density \<le> fl (35 / 100) \<and> fl (65 / 100) \<le> vert_density then Some ''1''
         else if fl (35 / 100) < upper_right_density \<and> fl (4 / 10) < top_density then Some ''7''
         else if fl (upper_right_density + fl (2 / 10)) < vert_density then Some ''1''
         else None)
   \<and> (2 \<le> img_width img \<and> 2 \<le> img_height img
        \<and> fg_density (binarize_for_ratio img) {0..<img_width img}
            {0..<max 1 (img_height img div 4)} = 6 / 10
        \<and> fg_density (binarize_for_ratio img)
            {img_width img div 2 - 1..<min (img_width img) (img_width img div 2 - 1 + 3)}
            {0..<img_height img} = 5 / 10
      \<longrightarrow> classify_digit_1_7 img = Some ''7'')"
proof (cases "img_width img < 2 \<or> img_height img < 2")
  case True
  have first: "classify_digit_1_7 img =
     (let b = binarize_for_ratio img; w = img_width img; h = img_height img;
          top_density = fl (fg_density b {0..<w} {0..<max 1 (h div 4)});
          vert_density = fl (fg_density b {w div 2 - 1..<min w (w div 2 - 1 + 3)} {0..<h});
          upper_right_density = fl (fg_density b {w div 2..<w} {0..<h div 2})
      in if w < 2 \<or> h < 2 then None
         else if fl (5 / 10) \<le> top_density \<and> vert_density < fl (7 / 10) then Some ''7''
         else if top_density \<le> fl (35 / 100) \<and> fl (65 / 100) \<le> vert_density then Some ''1''
         else if fl (35 / 100) < upper_right_density \<and> fl (4 / 10) < top_density then Some ''7''
         else if fl (upper_right_density + fl (2 / 10)) < vert_density then Some ''1''
         else None)"
    unfolding Let_def classify_digit_1_7_small [OF True]
    by (simp only: True if_True)
  have second: "2 \<le> img_width img \<and> 2 \<le> img_height img
        \<and> fg_density (binarize_for_ratio img) {0..<img_width img}
            {0..<max 1 (img_height img div 4)} = 6 / 10
        \<and> fg_density (binarize_for_ratio img)
            {img_width img div 2 - 1..<min (img_width img) (img_width img div 2 - 1 + 3)}
            {0..<img_height img} = 5 / 10
      \<longrightarrow> classify_digit_1_7 img = Some ''7''"
  proof
    assume "2 \<le> img_width img \<and> 2 \<le> img_height img
        \<and> fg_density (binarize_for_ratio img) {0..<img_width img}
            {0..<max 1 (img_height img div 4)} = 6 / 10
        \<and> fg_density (binarize_for_ratio img)
            {img_width img div 2 - 1..<min (img_width img) (img_width img div 2 - 1 + 3)}
            {0..<img_height img} = 5 / 10"
    then have "2 \<le> img_width img" "2 \<le> img_height img" by blast+
    with True have False by linarith
    then show "classify_digit_1_7 img = Some ''7''" ..
  qed
  from first second show ?thesis
    by (rule conjI)
next
  case False
  then have "2 \<le> img_width img" "2 \<le> img_height img" by simp_all
  note c = classify_digit_1_7_densities [OF this]
  have first: "classify_digit_1_7 img =
     (let b = binarize_for_ratio img; w = img_width img; h = img_height img;
          top_density = fl (fg_density b {0..<w} {0..<max 1 (h div 4)});
          vert_density = fl (fg_density b {w div 2 - 1..<min w (w div 2 - 1 + 3)} {0..<h});
          upper_right_density = fl (fg_density b {w div 2..<w} {0..<h div 2})
      in if w < 2 \<or> h < 2 then None
         else if fl (5 / 10) \<le> top_density \<and> vert_density < fl (7 / 10) then Some ''7''
         else if top_density \<le> fl (35 / 100) \<and> fl (65 / 100) \<le> vert_density then Some ''1''
         else if fl (35 / 100) < upper_right_density \<and> fl (4 / 10) < top_density then Some ''7''
         else if fl (upper_right_density + fl (2 / 10)) < vert_density then Some ''1''
         else None)"
    unfolding Let_def c decide_1_7_def
    by (simp only: False if_False)
  have second: "2 \<le> img_width img \<and> 2 \<le> img_height img
        \<and> fg_density (binarize_for_ratio img) {0..<img_width img}
            {0..<max 1 (img_height img div 4)} = 6 / 10
        \<and> fg_density (binarize_for_ratio img)
            {img_width img div 2 - 1..<min (img_width img) (img_width img div 2 - 1 + 3)}
            {0..<img_height img} = 5 / 10
      \<longrightarrow> classify_digit_1_7 img = Some ''7''"
  proof
    assume p: "2 \<le> img_width img \<and> 2 \<le> img_height img
        \<and> fg_density (binarize_for_ratio img) {0..<img_width img}
            {0..<max 1 (img_height img div 4)} = 6 / 10
        \<and> fg_density (binarize_for_ratio img)
            {img_width img div 2 - 1..<min (img_width img) (img_width img div 2 - 1 + 3)}
            {0..<img_height img} = 5 / 10"
    have "decide_1_7 (fl (6 / 10)) (fl (5 / 10)) u = Some ''7''" for u
      unfolding decide_1_7_def using float_thresholds by (simp only: conj_commute if_True simp_thms)
    with p show "classify_digit_1_7 img = Some ''7''"
      unfolding c by (simp only:)
  qed
  from first second show ?thesis
    by (rule conjI)
qed

text \<open>The 5 by 2 crop has top density 0.6 and band density 0.5.\<close>

theorem classify_digit_1_7_decision_witness:
  "2 \<le> img_width crop_5x2 \<and> 2 \<le> img_height crop_5x2
   \<and> fg_density (binarize_for_ratio crop_5x2) {0..<5} {0..<1} = 6 / 10
   \<and> fg_density (binarize_for_ratio crop_5x2) {1..<4} {0..<2} = 5 / 10
   \<and> classify_digit_1_7 crop_5x2 = Some ''7''"
  using classify_digit_1_7_decision [of crop_5x2, THEN conjunct2] crop_5x2_density
  by (simp add: sample_sizes)

text \<open>
  C7 as stated fails three times. The 1 by 20 crop, once binarized (which inverts it),
  has top-quarter density 0.6 and vertical density 0.5 and is inconclusive. In the 18
  by 4 crop the central third of the columns (6 to 11) has density 0.5, on which the
  decision list is inconclusive, but the classifier looks at columns 8 to 10 only,
  finds density 1 and answers 1. In the 8 by 10 crop the band density 0.9 exceeds the
  upper-right density 0.7 by 0.2 and no more, on which the decision list is
  inconclusive, but the float sum of 0.7 and 0.2 lies below the float 0.9 and the
  classifier answers 1.
\<close>

theorem narrow_and_wide_crop_counterexample:
  "img_width crop_1x20 = 1 \<and> img_height crop_1x20 = 20
   \<and> fg_density (binarize_for_ratio crop_1x20) {0..<1} {0..<5} = 6 / 10
   \<and> fg_density (binarize_for_ratio crop_1x20) {0..<1} {0..<20} = 5 / 10
   \<and> classify_digit_1_7 crop_1x20 = None
   \<and> img_width crop_18x4 = 18 \<and> img_height crop_18x4 = 4
   \<and> fg_density (binarize_for_ratio crop_18x4) {0..<18} {0..<1} = 1 / 6
   \<and> fg_density (binarize_for_ratio crop_18x4) {6..<12} {0..<4} = 1 / 2
   \<and> fg_density (binarize_for_ratio crop_18x4) {8..<11} {0..<4} = 1
   \<and> fg_density (binarize_for_ratio crop_18x4) {9..<18} {0..<2} = 5 / 9
   \<and> decide_1_7_spec (1 / 6) (1 / 2) (5 / 9) = None
   \<and> classify_digit_1_7 crop_18x4 = Some ''1''
   \<and> img_width crop_8x10 = 8 \<and> img_height crop_8x10 = 10
   \<and> fg_density (binarize_for_ratio crop_8x10) {0..<8} {0..<2} = 6 / 16
   \<and> fg_density (binarize_for_ratio crop_8x10) {3..<6} {0..<10} = 9 / 10
   \<and> fg_density (binarize_for_ratio crop_8x10) {4..<8} {0..<5} = 7 / 10
   \<and> decide_1_7_spec (6 / 16) (9 / 10) (7 / 10) = None
   \<and> fl (fl (7 / 10) + fl (2 / 10)) < fl (9 / 10)
   \<and> classify_digit_1_7 crop_8x10 = Some ''1''"
  by (intro conjI sample_sizes sample_density sample_classify sample_decide_spec
      float_sum_sample)

subsection \<open>The fallback of the text parser\<close>

lemma foldl_min_Min:
  "foldl (\<lambda>best x. if x < best then x else best) b xs = Min (insert b (set xs))"
proof (induction xs arbitrary: b)
  case Nil
  then show ?case by simp
next
  case (Cons x xs)
  have "Min (insert (if x < b then x else b) (set xs)) = Min (insert b (insert x (set xs)))"
    by (cases "set xs = {}") (auto simp: min_def)
  with Cons show ?case by simp
qed

lemma foldl_max_Max:
  "foldl (\<lambda>best x. if best < x then x else best) b xs = Max (insert b (set xs))"
proof (induction xs arbitrary: b)
  case Nil
  then show ?case by simp
next
  case (Cons x xs)
  have "Max (insert (if b < x then x else b) (set xs)) = Max (insert b (insert x (set xs)))"
    by (cases "set xs = {}") (auto simp: max_def)
  with Cons show ?case by simp
qed

lemma py_min_Min: "xs \<noteq> [] \<Longrightarrow> py_min xs = Min (set xs)"
  by (cases xs) (simp_all add: py_min_def foldl_min_Min)

lemma py_max_Max: "xs \<noteq> [] \<Longrightarrow> py_max xs = Max (set xs)"
  by (cases xs) (simp_all add: py_max_def foldl_max_Max)

lemma count_list_remove1:
  "count_list (remove1 v xs) x = (if x = v then count_list xs x - 1 else count_list xs x)"
  by (induction xs) auto

lemma count_list_remove_all:
  "count_list (foldl remove_once ns vs) x = count_list ns x - count_list vs x"
  by (induction vs arbitrary: ns) (auto simp: remove_once_def count_list_remove1)

lemma text_plain_facts:
  "strip text_plain = text_plain"
  "find_items (text_lines text_plain) = None"
  "find_price (text_lines text_plain) = None"
  "find_ratio (text_lines text_plain) = (Some 3, Some 7)"
  "extract_numbers text_plain = [3, 7, 120, 45]"
  "extract_ratio_numbers text_plain = [3, 7]"
  "remaining_numbers text_plain = [120, 45]"
  by code_simp+

lemma text_plain_ne: "text_plain \<noteq> []"
  by (simp add: text_plain_def)

lemma text_labelled_facts:
  "strip text_labelled = text_labelled"
  "find_items (text_lines text_labelled) = Some 120"
  "find_price (text_lines text_labelled) = None"
  "find_ratio (text_lines text_labelled) = (Some 3, Some 7)"
  "remaining_numbers text_labelled = [120, 45]"
  "items (parse text_labelled) = Some 120"
  "listing_price (parse text_labelled) = Some 120"
  by code_simp+

text \<open>
  C9 (as amended). For every text that is not blank, in which the labelled search left
  items or price missing and the ratio found has a numerator and a denominator other
  than 0: the numbers that remain are all numbers of the text less one occurrence of
  the integer part of each side of every ratio pattern in the text; items becomes the
  least remaining number if items was missing, price the greatest remaining number if
  price was missing, a value found by the labelled search is kept, and nothing is
  assigned when no number remains. For the text \<open>3:7 120 45\<close>, with ratio (3, 7) and
  remaining numbers 120 and 45, items is 45 and price is 120.
\<close>

theorem parse_fallback:
  assumes "strip text \<noteq> []"
    and "find_items (text_lines (strip text)) = None \<or> find_price (text_lines (strip text)) = None"
    and "truthy (fst (find_ratio (text_lines (strip text))))"
    and "truthy (snd (find_ratio (text_lines (strip text))))"
  shows "count_list (remaining_numbers (strip text)) v =
           count_list (extract_numbers (strip text)) v
             - count_list (extract_ratio_numbers (strip text)) v
       \<and> items (parse text) =
           (case find_items (text_lines (strip text)) of
              Some i \<Rightarrow> Some i
            | None \<Rightarrow> if remaining_numbers (strip text) = [] then None
                      else Some (Min (set (remaining_numbers (strip text)))))
       \<and> listing_price (parse text) =
           (case find_price (text_lines (strip text)) of
              Some p \<Rightarrow> Some p
            | None \<Rightarrow> if remaining_numbers (strip text) = [] then None
                      else Some (Max (set (remaining_numbers (strip text)))))"
proof (intro conjI)
  show "count_list (remaining_numbers (strip text)) v =
           count_list (extract_numbers (strip text)) v
             - count_list (extract_ratio_numbers (strip text)) v"
    by (simp add: remaining_numbers_def count_list_remove_all)
  show "items (parse text) =
           (case find_items (text_lines (strip text)) of
              Some i \<Rightarrow> Some i
            | None \<Rightarrow> if remaining_numbers (strip text) = [] then None
                      else Some (Min (set (remaining_numbers (strip text)))))"
    using assms
    by (auto simp: parse_def Let_def split_beta py_min_Min split: option.splits)
  show "listing_price (parse text) =
           (case find_price (text_lines (strip text)) of
              Some p \<Rightarrow> Some p
            | None \<Rightarrow> if remaining_numbers (strip text) = [] then None
                      else Some (Max (set (remaining_numbers (strip text)))))"
    using assms
    by (auto simp: parse_def Let_def split_beta py_max_Max split: option.splits)
qed

text \<open>The fallback on the text \<open>3:7 120 45\<close>.\<close>

theorem parse_fallback_witness:
  "strip text_plain \<noteq> []
   \<and> find_items (text_lines (strip text_plain)) = None
   \<and> find_price (text_lines (strip text_plain)) = None
   \<and> find_ratio (text_lines (strip text_plain)) = (Some 3, Some 7)
   \<and> remaining_numbers (strip text_plain) = [120, 45]
   \<and> items (parse text_plain) = Some 45
   \<and> listing_price (parse text_plain) = Some 120"
  using parse_fallback [of text_plain 45]
  by (simp add: text_plain_facts text_plain_ne truthy_def)

text \<open>
  C9 as stated fails when only the price is missing: in the three lines \<open>Ratio 3:7\<close>,
  \<open>120 items\<close>, \<open>45\<close> the remaining numbers are 120 and 45, yet items stays at the
  labelled 120 instead of the minimum 45.
\<close>

theorem labelled_items_kept_counterexample:
  "find_price (text_lines (strip text_labelled)) = None
   \<and> find_ratio (text_lines (strip text_labelled)) = (Some 3, Some 7)
   \<and> remaining_numbers (strip text_labelled) = [120, 45]
   \<and> items (parse text_labelled) = Some 120
   \<and> items (parse text_labelled) \<noteq> Some 45
   \<and> listing_price (parse text_labelled) = Some 120"
  by (simp add: text_labelled_facts)

end
